theory Spec2Isabelle
  imports Complex_Main "HOL-Library.Sublist" "HOL-Library.AList"
begin

section \<open>JobFit-AI: the generation client, the analysis pipeline and the resume export\<close>

text \<open>
  A shallow embedding of \<^verbatim>\<open>src/JobFit-AI.py\<close>. Python strings are \<open>string\<close>s; the
  character tests below are Python's on ASCII text (\<open>is_ascii\<close>); a theorem about
  them is stated for such text. Exceptions are values of
  \<open>error\<close>, carried on the left of a sum. The generation backend, \<^verbatim>\<open>json.loads\<close>,
  \<^verbatim>\<open>json.dumps\<close> and Python's \<^verbatim>\<open>str()\<close> of a value that is not a string are
  parameters of the functions that call them, and so is the test by which the document
  renderer accepts the text of a paragraph; the export functions return the list of
  flowables they hand to the renderer.
\<close>

subsection \<open>Errors and values\<close>

datatype error = ValueError | JSONDecodeError | AttributeError | TypeError | OtherError

text \<open>
  The values \<^verbatim>\<open>json.loads\<close> produces. A number keeps its lexeme; a dict is the list
  of its items in insertion order, read with \<open>map_of\<close>.
\<close>

datatype json =
    JNull
  | JBool bool
  | JNumber string
  | JString string
  | JArray "json list"
  | JObject "(string \<times> json) list"

definition then_do :: "error + 'a \<Rightarrow> ('a \<Rightarrow> error + 'b) \<Rightarrow> error + 'b" where
  "then_do r f = (case r of Inl e \<Rightarrow> Inl e | Inr v \<Rightarrow> f v)"

subsection \<open>Python's string operations\<close>

definition py_ord :: "char \<Rightarrow> nat" where
  "py_ord c = of_char c"

text \<open>\<^verbatim>\<open>str.isspace\<close> on one ASCII character: 9 to 13, 28 to 31 and the space.\<close>

definition isspace_char :: "char \<Rightarrow> bool" where
  "isspace_char c = ((9 \<le> py_ord c \<and> py_ord c \<le> 13) \<or> (28 \<le> py_ord c \<and> py_ord c \<le> 32))"

definition strip :: "string \<Rightarrow> string" where
  "strip s = rev (dropWhile isspace_char (rev (dropWhile isspace_char s)))"

text \<open>The ASCII line boundaries of \<^verbatim>\<open>str.splitlines\<close>: 10 to 13 and 28 to 30.\<close>

definition is_linebreak :: "char \<Rightarrow> bool" where
  "is_linebreak c = ((10 \<le> py_ord c \<and> py_ord c \<le> 13) \<or> (28 \<le> py_ord c \<and> py_ord c \<le> 30))"

text \<open>
  \<^verbatim>\<open>str.splitlines()\<close>: a carriage return followed by a line feed is one boundary, and
  a boundary at the very end opens no further line. The first argument is the line being
  read.
\<close>

fun splitlines_from :: "string \<Rightarrow> string \<Rightarrow> string list" where
  "splitlines_from cur [] = (if cur = [] then [] else [cur])"
| "splitlines_from cur [c] = (if is_linebreak c then [cur] else [cur @ [c]])"
| "splitlines_from cur (c # d # cs) =
     (if c = CHR 13 \<and> d = CHR 10 then cur # splitlines_from [] cs
      else if is_linebreak c then cur # splitlines_from [] (d # cs)
      else splitlines_from (cur @ [c]) (d # cs))"

definition splitlines :: "string \<Rightarrow> string list" where
  "splitlines s = splitlines_from [] s"

text \<open>\<^verbatim>\<open>str.split("\n")\<close>: the pieces between line feeds, empty ones included.\<close>

fun split_newline_from :: "string \<Rightarrow> string \<Rightarrow> string list" where
  "split_newline_from cur [] = [cur]"
| "split_newline_from cur (c # cs) =
     (if c = CHR 10 then cur # split_newline_from [] cs else split_newline_from (cur @ [c]) cs)"

definition split_newline :: "string \<Rightarrow> string list" where
  "split_newline s = split_newline_from [] s"

definition islower_char :: "char \<Rightarrow> bool" where
  "islower_char c = (97 \<le> py_ord c \<and> py_ord c \<le> 122)"

definition isupper_char :: "char \<Rightarrow> bool" where
  "isupper_char c = (65 \<le> py_ord c \<and> py_ord c \<le> 90)"

text \<open>
  \<^verbatim>\<open>str.isupper()\<close>: there is a cased character and no cased character is lower
  case.
\<close>

definition isupper :: "string \<Rightarrow> bool" where
  "isupper s = (list_ex isupper_char s \<and> \<not> list_ex islower_char s)"

definition upper_char :: "char \<Rightarrow> char" where
  "upper_char c = (if islower_char c then char_of (py_ord c - 32) else c)"

definition upper :: "string \<Rightarrow> string" where
  "upper s = map upper_char s"


text \<open>\<^verbatim>\<open>sep.join(xs)\<close> on strings.\<close>

fun join :: "string \<Rightarrow> string list \<Rightarrow> string" where
  "join sep [] = []"
| "join sep [x] = x"
| "join sep (x # y # ys) = x @ sep @ join sep (y # ys)"

subsection \<open>The two searches of \<^verbatim>\<open>generate_json\<close>\<close>

text \<open>
  \<^verbatim>\<open>$\<close> without the multi-line flag: at the end of the string, or just before a line
  feed that ends the string.
\<close>

definition at_end :: "string \<Rightarrow> bool" where
  "at_end rest = (rest = [] \<or> rest = [CHR 10])"

text \<open>
  \<^verbatim>\<open>[\s\S]*\}\<close> after the opening brace, followed by \<^verbatim>\<open>$\<close> when \<open>anchored\<close>:
  the star is greedy, so the longest prefix that ends in a closing brace (at the end) is
  taken. The result is the matched text.
\<close>

fun greedy_close :: "bool \<Rightarrow> string \<Rightarrow> string option" where
  "greedy_close anchored [] = None"
| "greedy_close anchored (c # cs) =
     (case greedy_close anchored cs of
        Some m \<Rightarrow> Some (c # m)
      | None \<Rightarrow>
          if c = CHR ''}'' \<and> (if anchored then at_end cs else True) then Some [c] else None)"

text \<open>
  \<^verbatim>\<open>re.search\<close> of \<^verbatim>\<open>\{[\s\S]*\}$\<close> (\<open>anchored\<close>) or of \<^verbatim>\<open>\{[\s\S]*\}\<close>: the
  leftmost position where the pattern matches; \<open>None\<close> is Python's \<^verbatim>\<open>None\<close>, and
  \<open>Some m\<close> a match whose \<^verbatim>\<open>group(0)\<close> is \<open>m\<close>.
\<close>

fun re_search :: "bool \<Rightarrow> string \<Rightarrow> string option" where
  "re_search anchored [] = None"
| "re_search anchored (c # cs) =
     (if c = CHR ''{'' then
        (case greedy_close anchored cs of
           Some m \<Rightarrow> Some (c # m)
         | None \<Rightarrow> re_search anchored cs)
      else re_search anchored cs)"

text \<open>
  \<^verbatim>\<open>re.search(r"\{[\s\S]*\}$", raw) or re.search(r"\{[\s\S]*\}", raw)\<close>: a match object
  is true, so the second search runs only when the first finds nothing.
\<close>

definition find_span :: "string \<Rightarrow> string option" where
  "find_span raw = (case re_search True raw of Some m \<Rightarrow> Some m | None \<Rightarrow> re_search False raw)"

text \<open>
  The body of \<^verbatim>\<open>generate_json\<close> after the raw text is there (lines 53 to 63). Only
  \<^verbatim>\<open>JSONDecodeError\<close> is caught; any other exception of the decoder leaves the
  function.
\<close>

definition extract_json :: "(string \<Rightarrow> error + json) \<Rightarrow> string \<Rightarrow> error + json" where
  "extract_json loads raw =
     (case loads raw of
        Inr v \<Rightarrow> Inr v
      | Inl e \<Rightarrow>
          if e \<noteq> JSONDecodeError then Inl e
          else (case find_span raw of
                  None \<Rightarrow> Inr (JObject [])
                | Some m \<Rightarrow>
                    (case loads m of
                       Inr v \<Rightarrow> Inr v
                     | Inl e' \<Rightarrow> if e' \<noteq> JSONDecodeError then Inl e' else Inr (JObject []))))"

subsection \<open>A decoder for the concrete inputs\<close>

text \<open>
  \<open>json_loads\<close> follows CPython's \<^verbatim>\<open>json.loads\<close> on a string (the scanner's
  \<^verbatim>\<open>scan_once\<close>, \<^verbatim>\<open>JSONObject\<close>, \<^verbatim>\<open>JSONArray\<close> and \<^verbatim>\<open>scanstring\<close> in
  strict mode). A text that is not JSON gives \<^verbatim>\<open>JSONDecodeError\<close>; an integer of
  more than 4300 digits gives \<^verbatim>\<open>ValueError\<close>, as the conversion of the interpreter
  does. It is used where a theorem is evaluated at a concrete text; the general theorems
  hold for every decoder. Outside the model: the recursion limit of the interpreter,
  which a text nested some hundred levels deep exceeds. A code point from 128 on, from
  an escape, is kept as its UTF-8 bytes.
\<close>

definition is_json_ws :: "char \<Rightarrow> bool" where
  "is_json_ws c = (c = CHR '' '' \<or> c = CHR 9 \<or> c = CHR 10 \<or> c = CHR 13)"

definition skip_ws :: "string \<Rightarrow> string" where
  "skip_ws s = dropWhile is_json_ws s"

definition is_digit :: "char \<Rightarrow> bool" where
  "is_digit c = (48 \<le> py_ord c \<and> py_ord c \<le> 57)"

definition is_hexdigit :: "char \<Rightarrow> bool" where
  "is_hexdigit c =
     (is_digit c \<or> (97 \<le> py_ord c \<and> py_ord c \<le> 102) \<or> (65 \<le> py_ord c \<and> py_ord c \<le> 70))"

definition hexval :: "char \<Rightarrow> nat" where
  "hexval c =
     (if is_digit c then py_ord c - 48 else if 97 \<le> py_ord c then py_ord c - 87 else py_ord c - 55)"

definition hex4 :: "string \<Rightarrow> nat" where
  "hex4 ds = foldl (\<lambda>a h. 16 * a + hexval h) 0 ds"

definition utf8 :: "nat \<Rightarrow> string" where
  "utf8 cp =
     (if cp < 128 then [char_of cp]
      else if cp < 2048 then [char_of (192 + cp div 64), char_of (128 + cp mod 64)]
      else if cp < 65536 then
        [char_of (224 + cp div 4096), char_of (128 + (cp div 64) mod 64),
         char_of (128 + cp mod 64)]
      else [char_of (240 + cp div 262144), char_of (128 + (cp div 4096) mod 64),
            char_of (128 + (cp div 64) mod 64), char_of (128 + cp mod 64)])"

definition unescape :: "char \<Rightarrow> char option" where
  "unescape e =
     (if e = CHR 0x22 \<or> e = CHR 0x5C \<or> e = CHR ''/'' then Some e
      else if e = CHR ''b'' then Some (CHR 8)
      else if e = CHR ''f'' then Some (CHR 12)
      else if e = CHR ''n'' then Some (CHR 10)
      else if e = CHR ''r'' then Some (CHR 13)
      else if e = CHR ''t'' then Some (CHR 9)
      else None)"

text \<open>
  The text after an opening quote: the decoded string and what follows the closing quote.
  A control character, an unknown escape or a missing closing quote is an error. An
  escape of a high surrogate that is followed by another \<^verbatim>\<open>\u\<close> reads that escape
  too: with a low surrogate the two make one code point, with any other code point the
  second escape is read again on its own.
\<close>

fun scanstring :: "string \<Rightarrow> error + (string \<times> string)" where
  "scanstring [] = Inl JSONDecodeError"
| "scanstring [c] = (if c = CHR 0x22 then Inr ([], []) else Inl JSONDecodeError)"
| "scanstring (c # e # r) =
     (if c = CHR 0x22 then Inr ([], e # r)
      else if c = CHR 0x5C then
        (if e = CHR ''u'' then
           (if length r < 4 \<or> \<not> list_all is_hexdigit (take 4 r) then Inl JSONDecodeError
            else if 55296 \<le> hex4 (take 4 r) \<and> hex4 (take 4 r) \<le> 56319
                    \<and> take 2 (drop 4 r) = [CHR 0x5C, CHR ''u'']
            then (if length r < 10 \<or> \<not> list_all is_hexdigit (take 4 (drop 6 r))
                  then Inl JSONDecodeError
                  else if 56320 \<le> hex4 (take 4 (drop 6 r)) \<and> hex4 (take 4 (drop 6 r)) \<le> 57343
                  then then_do (scanstring (drop 10 r)) (\<lambda>(t, rest).
                         Inr (utf8 (65536 + (hex4 (take 4 r) - 55296) * 1024
                                      + (hex4 (take 4 (drop 6 r)) - 56320)) @ t, rest))
                  else then_do (scanstring (drop 4 r)) (\<lambda>(t, rest).
                         Inr (utf8 (hex4 (take 4 r)) @ t, rest)))
            else then_do (scanstring (drop 4 r)) (\<lambda>(t, rest). Inr (utf8 (hex4 (take 4 r)) @ t, rest)))
         else (case unescape e of
                 None \<Rightarrow> Inl JSONDecodeError
               | Some d \<Rightarrow> then_do (scanstring r) (\<lambda>(t, rest). Inr (d # t, rest))))
      else if py_ord c < 32 then Inl JSONDecodeError
      else then_do (scanstring (e # r)) (\<lambda>(t, rest). Inr (c # t, rest)))"

text \<open>
  The number pattern \<^verbatim>\<open>(-?(?:0|[1-9]\d*))(\.\d+)?([eE][-+]?\d+)?\<close>, part by part: the
  lexeme matched and the rest.
\<close>

definition scan_int :: "string \<Rightarrow> (string \<times> string) option" where
  "scan_int s =
     (let (sign, s1) = (case s of
                          [] \<Rightarrow> ([], s)
                        | c # r \<Rightarrow> if c = CHR ''-'' then ([c], r) else ([], s))
      in case s1 of
           [] \<Rightarrow> None
         | d # r \<Rightarrow>
             if d = CHR ''0'' then Some (sign @ [d], r)
             else if is_digit d then Some (sign @ d # takeWhile is_digit r, dropWhile is_digit r)
             else None)"

definition scan_frac :: "string \<Rightarrow> string \<times> string" where
  "scan_frac s =
     (case s of
        c # d # r \<Rightarrow>
          if c = CHR ''.'' \<and> is_digit d then (c # d # takeWhile is_digit r, dropWhile is_digit r)
          else ([], s)
      | _ \<Rightarrow> ([], s))"

definition scan_exp :: "string \<Rightarrow> string \<times> string" where
  "scan_exp s =
     (case s of
        [] \<Rightarrow> ([], s)
      | c # r \<Rightarrow>
          if c = CHR ''e'' \<or> c = CHR ''E'' then
            (let (sg, r1) = (case r of
                               [] \<Rightarrow> ([], r)
                             | x # r' \<Rightarrow> if x = CHR ''+'' \<or> x = CHR ''-'' then ([x], r') else ([], r))
             in case r1 of
                  [] \<Rightarrow> ([], s)
                | d # r2 \<Rightarrow>
                    if is_digit d then (c # sg @ d # takeWhile is_digit r2, dropWhile is_digit r2)
                    else ([], s))
          else ([], s))"

text \<open>
  A number without fraction and exponent is converted to an integer, which fails with
  \<^verbatim>\<open>ValueError\<close> when it has more than 4300 digits; any other number becomes a float.
  \<open>None\<close>: the text does not start with a number.
\<close>

definition scan_number :: "string \<Rightarrow> (error + (string \<times> string)) option" where
  "scan_number s =
     (case scan_int s of
        None \<Rightarrow> None
      | Some (i, r) \<Rightarrow>
          (let (f, r1) = scan_frac r; (e, r2) = scan_exp r1
           in if f = [] \<and> e = [] \<and> 4300 < length (filter is_digit i) then Some (Inl ValueError)
              else Some (Inr (i @ f @ e, r2))))"

definition scan_word :: "string \<Rightarrow> json \<Rightarrow> string \<Rightarrow> (json \<times> string) option" where
  "scan_word w v s = (if take (length w) s = w then Some (v, drop (length w) s) else None)"

text \<open>The values that are neither a string nor a container, in the scanner's order.\<close>

definition scan_atom :: "string \<Rightarrow> error + (json \<times> string)" where
  "scan_atom s =
     (case scan_word ''null'' JNull s of Some r \<Rightarrow> Inr r | None \<Rightarrow>
     (case scan_word ''true'' (JBool True) s of Some r \<Rightarrow> Inr r | None \<Rightarrow>
     (case scan_word ''false'' (JBool False) s of Some r \<Rightarrow> Inr r | None \<Rightarrow>
     (case scan_number s of
        Some n \<Rightarrow> then_do n (\<lambda>(lexeme, r). Inr (JNumber lexeme, r))
      | None \<Rightarrow>
     (case scan_word ''NaN'' (JNumber ''NaN'') s of Some r \<Rightarrow> Inr r | None \<Rightarrow>
     (case scan_word ''Infinity'' (JNumber ''Infinity'') s of Some r \<Rightarrow> Inr r | None \<Rightarrow>
     (case scan_word ''-Infinity'' (JNumber ''-Infinity'') s of
        Some r \<Rightarrow> Inr r
      | None \<Rightarrow> Inl JSONDecodeError)))))))"

text \<open>
  One value at the head of the text, and the rest. \<open>JSONArray\<close> and \<open>JSONObject\<close> run
  after the opening bracket, on the first element or key, with the items read so far;
  a repeated key keeps its first place and takes the last value, as \<^verbatim>\<open>dict(pairs)\<close>
  does. The comparisons of lengths make the recursion well-founded: what is left after a
  value or a key is shorter than the text it was read from, so they always hold
  (\<open>JSONArray_unguarded\<close> and \<open>JSONObject_unguarded\<close> below).
\<close>

function (sequential) scan_once :: "string \<Rightarrow> error + (json \<times> string)"
  and JSONArray :: "json list \<Rightarrow> string \<Rightarrow> error + (json \<times> string)"
  and JSONObject :: "(string \<times> json) list \<Rightarrow> string \<Rightarrow> error + (json \<times> string)"
where
  "scan_once [] = Inl JSONDecodeError"
| "scan_once (c # r) =
     (if c = CHR 0x22 then then_do (scanstring r) (\<lambda>(t, rest). Inr (JString t, rest))
      else if c = CHR ''{'' then
        (case skip_ws r of
           [] \<Rightarrow> Inl JSONDecodeError
         | d # r' \<Rightarrow> if d = CHR ''}'' then Inr (JObject [], r') else JSONObject [] (d # r'))
      else if c = CHR ''['' then
        (case skip_ws r of
           [] \<Rightarrow> Inl JSONDecodeError
         | d # r' \<Rightarrow> if d = CHR '']'' then Inr (JArray [], r') else JSONArray [] (d # r'))
      else scan_atom (c # r))"
| "JSONArray acc s =
     (case scan_once s of
        Inl e \<Rightarrow> Inl e
      | Inr (v, rest) \<Rightarrow>
          (case skip_ws rest of
             [] \<Rightarrow> Inl JSONDecodeError
           | d # r' \<Rightarrow>
               if d = CHR '']'' then Inr (JArray (acc @ [v]), r')
               else if d = CHR '','' \<and> length r' < length s
               then JSONArray (acc @ [v]) (skip_ws r')
               else Inl JSONDecodeError))"
| "JSONObject acc [] = Inl JSONDecodeError"
| "JSONObject acc (q # s) =
     (if q \<noteq> CHR 0x22 then Inl JSONDecodeError
      else (case scanstring s of
        Inl e \<Rightarrow> Inl e
      | Inr (key, r0) \<Rightarrow>
          (case skip_ws r0 of
             [] \<Rightarrow> Inl JSONDecodeError
           | col # r1 \<Rightarrow>
               if col \<noteq> CHR '':'' \<or> \<not> length r1 < length s then Inl JSONDecodeError
               else (case scan_once (skip_ws r1) of
                 Inl e \<Rightarrow> Inl e
               | Inr (v, rest) \<Rightarrow>
                   (case skip_ws rest of
                      [] \<Rightarrow> Inl JSONDecodeError
                    | d # r' \<Rightarrow>
                        if d = CHR ''}'' then Inr (JObject (AList.update key v acc), r')
                        else if d = CHR '','' \<and> length r' < length s
                        then JSONObject (AList.update key v acc) (skip_ws r')
                        else Inl JSONDecodeError)))))"
  by pat_completeness auto

termination scan_once
proof -
  have le: "length (skip_ws s) \<le> length s" for s
    by (simp add: skip_ws_def length_dropWhile_le)
  have sh: "length r' < length r" if "skip_ws r = d # r'" for r d r'
    using le[of r] that by simp
  show ?thesis
    apply (relation "measure (\<lambda>x. case x of Inl s \<Rightarrow> 2 * length s + 1
                                   | Inr (Inl (acc, s)) \<Rightarrow> 2 * length s + 2
                                   | Inr (Inr (acc, s)) \<Rightarrow> 2 * length s + 2)")
          apply (auto dest: sh simp: less_Suc_eq_le)
    subgoal for s a b x22 using le[of x22] by simp
    subgoal for s a b x22 using le[of x22] by simp
    subgoal for s a b x22 aa ba x22a using le[of x22a] by simp
    done
qed

text \<open>
  \<^verbatim>\<open>json.loads\<close>: white space, one value, white space, and nothing else.
\<close>

definition json_loads :: "string \<Rightarrow> error + json" where
  "json_loads s =
     (case scan_once (skip_ws s) of
        Inl e \<Rightarrow> Inl e
      | Inr (v, rest) \<Rightarrow> if skip_ws rest = [] then Inr v else Inl JSONDecodeError)"

subsection \<open>The generation client\<close>

definition SUPPORTED_MODELS :: "string list" where
  "SUPPORTED_MODELS = [''models/gemini-2.0-flash'', ''models/gemini-pro'']"

record LLMClient =
  model_name :: string
  temperature :: real

text \<open>
  \<^verbatim>\<open>LLMClient.__init__\<close>. An argument left out is \<open>None\<close> and takes the default of
  the signature. Configuring the library and making the model handle call no service and
  are not modelled; the handle is the backend the later functions take.
\<close>

definition LLMClient_init :: "string \<Rightarrow> string option \<Rightarrow> real option \<Rightarrow> error + LLMClient" where
  "LLMClient_init api_key name temp =
     (if api_key = [] then Inl ValueError
      else (let name1 = (case name of None \<Rightarrow> ''models/gemini-2.0-flash'' | Some n \<Rightarrow> n);
                name2 = (if name1 \<notin> set SUPPORTED_MODELS then SUPPORTED_MODELS ! 0 else name1)
            in Inr \<lparr>model_name = name2,
                    temperature = (case temp of None \<Rightarrow> 0.2 | Some t \<Rightarrow> t)\<rparr>))"

text \<open>
  A backend response. Reading an attribute either raises or gives a value; \<open>None\<close> is
  Python's \<^verbatim>\<open>None\<close>.
\<close>

datatype part = Part (part_text: "error + string option")

datatype candidate = Candidate (content_parts: "error + part list")

datatype response =
  Response (response_text: "error + string option") (candidates: "error + candidate list")

text \<open>\<^verbatim>\<open>getattr(part, "text", None)\<close>: only a missing attribute gives the default.\<close>

definition getattr_text :: "part \<Rightarrow> error + string option" where
  "getattr_text p =
     (case part_text p of
        Inl e \<Rightarrow> if e = AttributeError then Inr None else Inl e
      | Inr v \<Rightarrow> Inr v)"

text \<open>
  The generator of \<^verbatim>\<open>_first_text\<close>: the texts of the parts whose text is true, in
  order; an exception anywhere ends it.
\<close>

fun part_texts :: "part list \<Rightarrow> error + string list" where
  "part_texts [] = Inr []"
| "part_texts (p # ps) =
     then_do (getattr_text p) (\<lambda>t.
       case t of
         None \<Rightarrow> part_texts ps
       | Some s \<Rightarrow> if s = [] then part_texts ps
                   else then_do (part_texts ps) (\<lambda>ts. Inr (s # ts)))"

fun fragments :: "candidate list \<Rightarrow> error + string list" where
  "fragments [] = Inr []"
| "fragments (c # cs) =
     then_do (content_parts c) (\<lambda>ps.
     then_do (part_texts ps) (\<lambda>ts.
     then_do (fragments cs) (\<lambda>us. Inr (ts @ us))))"

definition first_text :: "response \<Rightarrow> string" where
  "first_text r =
     (case response_text r of
        Inr t \<Rightarrow> strip (case t of None \<Rightarrow> [] | Some s \<Rightarrow> s)
      | Inl e \<Rightarrow>
          (case then_do (candidates r) fragments of
             Inr ts \<Rightarrow> strip (join [CHR 10] ts)
           | Inl e' \<Rightarrow> []))"

text \<open>
  One call of the backend: the model's name, the prompt and the temperature of the
  generation configuration. The backend has a state of its own, so two calls with the
  same request may differ; the world is the list of the requests sent so far and that
  state.
\<close>

record request =
  req_model :: string
  req_prompt :: string
  req_temperature :: real

type_synonym 'b backend = "request \<Rightarrow> 'b \<Rightarrow> (error + response) \<times> 'b"

type_synonym 'b world = "request list \<times> 'b"

definition generate_text ::
  "'b backend \<Rightarrow> LLMClient \<Rightarrow> string \<Rightarrow> real option \<Rightarrow> 'b world \<Rightarrow> (error + string) \<times> 'b world" where
  "generate_text backend self prompt temp w =
     (let cfg = (case temp of None \<Rightarrow> temperature self | Some t \<Rightarrow> t);
          req = \<lparr>req_model = model_name self, req_prompt = prompt, req_temperature = cfg\<rparr>;
          (resp, b) = backend req (snd w)
      in (case resp of Inl e \<Rightarrow> Inl e | Inr r \<Rightarrow> Inr (first_text r), (fst w @ [req], b)))"

definition generate_json ::
  "(string \<Rightarrow> error + json) \<Rightarrow> 'b backend \<Rightarrow> LLMClient \<Rightarrow> string \<Rightarrow> real option \<Rightarrow> 'b world
     \<Rightarrow> (error + json) \<times> 'b world" where
  "generate_json loads backend self prompt temp w =
     (case generate_text backend self prompt temp w of
        (Inl e, w') \<Rightarrow> (Inl e, w')
      | (Inr raw, w') \<Rightarrow> (extract_json loads raw, w'))"

subsection \<open>The analysis pipeline\<close>

definition analyze_job_prompt :: "string \<Rightarrow> string" where
  "analyze_job_prompt job_description =
     join [CHR 10]
       [[],
        ''        Analyze this job description and provide a detailed JSON with:'',
        ''        1. Key technical skills required'',
        ''        2. Soft skills required'',
        ''        3. Years of experience required'',
        ''        4. Education requirements'',
        ''        5. Key responsibilities'',
        ''        6. Company culture indicators'',
        ''        7. Required certifications'',
        ''        8. Industry type'',
        ''        9. Job level (entry, mid, senior)'',
        ''        10. Key technologies mentioned'',
        ''        Respond ONLY with a valid JSON object.'',
        ''        Job Description:'',
        job_description,
        ''        '']"

definition analyze_resume_prompt :: "string \<Rightarrow> string" where
  "analyze_resume_prompt resume_text =
     join [CHR 10]
       [[],
        ''        Analyze this resume and provide a detailed JSON with:'',
        ''        1. Technical skills'',
        ''        2. Soft skills'',
        ''        3. Years of experience'',
        ''        4. Education details'',
        ''        5. Key achievements'',
        ''        6. Core competencies'',
        ''        7. Industry experience'',
        ''        8. Leadership experience'',
        ''        9. Technologies used'',
        ''        10. Projects completed'',
        ''        Respond ONLY with a valid JSON object.'',
        ''        Resume:'',
        resume_text,
        ''        '']"

definition match_structure :: json where
  "match_structure =
     JObject
       [(''overall_match_percentage'', JString ''85%''),
        (''matching_skills'',
           JArray [JObject [(''skill_name'', JString ''Python''), (''is_match'', JBool True)]]),
        (''missing_skills'',
           JArray [JObject [(''skill_name'', JString ''Docker''), (''is_match'', JBool False),
                            (''suggestion'', JString ''Consider obtaining Docker certification'')]]),
        (''skills_gap_analysis'',
           JObject [(''technical_skills'', JString []), (''soft_skills'', JString [])]),
        (''experience_match_analysis'', JString []),
        (''education_match_analysis'', JString []),
        (''recommendations_for_improvement'',
           JArray [JObject [(''recommendation'', JString ''Add metrics''),
                            (''section'', JString ''Experience''),
                            (''guidance'', JString ''Quantify achievements with numbers'')]]),
        (''ats_optimization_suggestions'',
           JArray [JObject [(''section'', JString ''Skills''),
                            (''current_content'', JString ''Current format''),
                            (''suggested_change'', JString ''Specific change needed''),
                            (''keywords_to_add'', JArray [JString ''keyword1'', JString ''keyword2'']),
                            (''formatting_suggestion'', JString ''Specific format change''),
                            (''reason'', JString ''Detailed reason'')]]),
        (''key_strengths'', JString []),
        (''areas_of_improvement'', JString [])]"

text \<open>\<open>dumps\<close> is \<^verbatim>\<open>json.dumps(value, indent=2)\<close>.\<close>

definition analyze_match_prompt :: "(json \<Rightarrow> string) \<Rightarrow> json \<Rightarrow> json \<Rightarrow> string" where
  "analyze_match_prompt dumps job_analysis resume_analysis =
     ''You are a professional resume analyzer. Compare the provided job requirements and resume to ''
     @ ''generate a detailed analysis in valid JSON. Respond ONLY with JSON matching this structure, ''
     @ ''filling it with specific, actionable content based on the inputs.'' @ [CHR 10, CHR 10]
     @ ''Job Requirements:'' @ [CHR 10] @ dumps job_analysis @ [CHR 10, CHR 10]
     @ ''Resume Details:'' @ [CHR 10] @ dumps resume_analysis @ [CHR 10, CHR 10]
     @ ''JSON schema example (use same keys, replace values):'' @ [CHR 10] @ dumps match_structure"

definition analyze_job ::
  "(string \<Rightarrow> error + json) \<Rightarrow> 'b backend \<Rightarrow> LLMClient \<Rightarrow> string \<Rightarrow> 'b world
     \<Rightarrow> (error + json) \<times> 'b world" where
  "analyze_job loads backend llm job_description =
     generate_json loads backend llm (analyze_job_prompt job_description) (Some 0.1)"

definition analyze_resume ::
  "(string \<Rightarrow> error + json) \<Rightarrow> 'b backend \<Rightarrow> LLMClient \<Rightarrow> string \<Rightarrow> 'b world
     \<Rightarrow> (error + json) \<times> 'b world" where
  "analyze_resume loads backend llm resume_text =
     generate_json loads backend llm (analyze_resume_prompt resume_text) (Some 0.1)"

definition analyze_match ::
  "(string \<Rightarrow> error + json) \<Rightarrow> (json \<Rightarrow> string) \<Rightarrow> 'b backend \<Rightarrow> LLMClient \<Rightarrow> json \<Rightarrow> json
     \<Rightarrow> 'b world \<Rightarrow> (error + json) \<times> 'b world" where
  "analyze_match loads dumps backend llm job_analysis resume_analysis =
     generate_json loads backend llm (analyze_match_prompt dumps job_analysis resume_analysis)
       (Some 0.2)"

text \<open>
  Python's truth value of a decoded value. A number is false when it is zero. An integer
  is zero when its digits are; a float is zero when the decimal it is written as rounds
  to zero, that is, when it is at most \<open>2\<^sup>-\<^sup>1\<^sup>0\<^sup>7\<^sup>5\<close>, half of the least positive
  float. With \<open>n\<close> the digits of the mantissa and \<open>k\<close> the number of decimal places
  that are left once the exponent is taken in (none, when the exponent moves the point
  past them), that is the case exactly when \<open>n * 2\<^sup>1\<^sup>0\<^sup>7\<^sup>5 \<le> 10\<^sup>k\<close>.
\<close>

definition digits_value :: "string \<Rightarrow> nat" where
  "digits_value ds = foldl (\<lambda>a c. 10 * a + (py_ord c - 48)) 0 ds"

definition number_is_zero :: "string \<Rightarrow> bool" where
  "number_is_zero s =
     (let m = takeWhile (\<lambda>c. c \<noteq> CHR ''e'' \<and> c \<noteq> CHR ''E'') s;
          x = drop (Suc (length m)) s;
          fp = filter is_digit (dropWhile (\<lambda>c. c \<noteq> CHR ''.'') m);
          n = digits_value (filter is_digit m);
          ex = digits_value (filter is_digit x);
          k = (if x \<noteq> [] \<and> hd x = CHR ''-'' then length fp + ex else length fp - ex)
      in list_ex is_digit m \<and> n * 2 ^ 1075 \<le> 10 ^ k)"

fun truthy :: "json \<Rightarrow> bool" where
  "truthy JNull = False"
| "truthy (JBool b) = b"
| "truthy (JNumber n) = (\<not> number_is_zero n)"
| "truthy (JString s) = (s \<noteq> [])"
| "truthy (JArray xs) = (xs \<noteq> [])"
| "truthy (JObject kvs) = (kvs \<noteq> [])"

text \<open>
  The analysis step of \<^verbatim>\<open>main\<close> (lines 634 to 640): the three stages one after the
  other, then the test of the three results. \<open>InsufficientData\<close> is the branch that
  reports the error and returns; \<open>AnalysisCompleted\<close> goes on to present the results.
\<close>

datatype outcome = InsufficientData | AnalysisCompleted json json json

definition main_analysis ::
  "(string \<Rightarrow> error + json) \<Rightarrow> (json \<Rightarrow> string) \<Rightarrow> 'b backend \<Rightarrow> LLMClient \<Rightarrow> string \<Rightarrow> string
     \<Rightarrow> 'b world \<Rightarrow> (error + outcome) \<times> 'b world" where
  "main_analysis loads dumps backend llm job_desc resume_text w =
     (case analyze_job loads backend llm job_desc w of
        (Inl e, w1) \<Rightarrow> (Inl e, w1)
      | (Inr job_analysis, w1) \<Rightarrow>
          (case analyze_resume loads backend llm resume_text w1 of
             (Inl e, w2) \<Rightarrow> (Inl e, w2)
           | (Inr resume_analysis, w2) \<Rightarrow>
               (case analyze_match loads dumps backend llm job_analysis resume_analysis w2 of
                  (Inl e, w3) \<Rightarrow> (Inl e, w3)
                | (Inr match_analysis, w3) \<Rightarrow>
                    (Inr (if \<not> (truthy job_analysis \<and> truthy resume_analysis \<and> truthy match_analysis)
                          then InsufficientData
                          else AnalysisCompleted job_analysis resume_analysis match_analysis),
                     w3))))"

subsection \<open>The resume export\<close>

text \<open>
  What the export functions give the renderer: paragraphs of a text in a style, and
  spacers. The styles carry the names they have in the source.
\<close>

datatype style =
    header_style | section_header_style | normal_style | bullet_style | recommendation_style
  | Heading1 | Heading2 | Normal | RecommendationStyle

datatype flowable = Paragraph string style | Spacer nat nat

text \<open>
  \<^verbatim>\<open>Paragraph(text, style)\<close>: the renderer parses the text as markup when the paragraph
  is made, and raises \<^verbatim>\<open>ValueError\<close> for a text it does not accept (an unknown tag, a
  tag left open). Which texts it accepts is the parameter \<open>accepts\<close>.
\<close>

definition new_Paragraph :: "(string \<Rightarrow> bool) \<Rightarrow> string \<Rightarrow> style \<Rightarrow> error + flowable" where
  "new_Paragraph accepts t st = (if accepts t then Inr (Paragraph t st) else Inl ValueError)"

text \<open>The marker before a bullet, as the bytes of the source file.\<close>

definition bullet_mark :: string where
  "bullet_mark =
     [CHR 0xC3, CHR 0x83, CHR 0xC2, CHR 0xA2, CHR 0xC3, CHR 0xA2, CHR 0xE2, CHR 0x80, CHR 0x9A,
      CHR 0xC2, CHR 0xAC, CHR 0xC3, CHR 0x82, CHR 0xC2, CHR 0xA2]"

definition resume_parts :: "string \<Rightarrow> string list" where
  "resume_parts resume_text = map strip (filter (\<lambda>line. strip line \<noteq> []) (splitlines resume_text))"

definition common_sections :: "string list" where
  "common_sections =
     [''EXPERIENCE'', ''EDUCATION'', ''SKILLS'', ''PROJECTS'', ''CERTIFICATIONS'', ''SUMMARY'',
      ''OBJECTIVE'']"

definition is_section :: "string \<Rightarrow> bool" where
  "is_section line = (isupper line \<or> list_ex (\<lambda>section. sublist section (upper line)) common_sections)"

text \<open>\<^verbatim>\<open>flush_bullets\<close>: the paragraphs it appends; the list of bullets is then empty.\<close>

fun flush_bullets :: "(string \<Rightarrow> bool) \<Rightarrow> string list \<Rightarrow> error + flowable list" where
  "flush_bullets accepts [] = Inr []"
| "flush_bullets accepts (bullet # bullets) =
     then_do (new_Paragraph accepts (bullet_mark @ '' '' @ bullet) bullet_style) (\<lambda>p.
     then_do (flush_bullets accepts bullets) (\<lambda>ps. Inr (p # ps)))"

text \<open>The loop over the lines, with the pending bullets and the content so far.\<close>

fun place_lines ::
  "(string \<Rightarrow> bool) \<Rightarrow> string list \<Rightarrow> string list \<Rightarrow> flowable list \<Rightarrow> error + flowable list" where
  "place_lines accepts [] bullets content =
     then_do (flush_bullets accepts bullets) (\<lambda>ps. Inr (content @ ps))"
| "place_lines accepts (line # rest) bullets content =
     (if is_section line
      then then_do (flush_bullets accepts bullets) (\<lambda>ps.
           then_do (new_Paragraph accepts line section_header_style) (\<lambda>h.
             place_lines accepts rest [] (content @ ps @ [Spacer 1 12, h])))
      else place_lines accepts rest (bullets @ [line]) content)"

text \<open>
  The first part of \<^verbatim>\<open>generate_updated_resume\<close> (lines 147 to 169): the title and the
  lines of the resume.
\<close>

definition resume_content :: "(string \<Rightarrow> bool) \<Rightarrow> string \<Rightarrow> error + flowable list" where
  "resume_content accepts resume_text =
     then_do (new_Paragraph accepts ''Updated Resume'' header_style) (\<lambda>title.
       place_lines accepts (resume_parts resume_text) [] [title, Spacer 1 12])"

text \<open>
  \<^verbatim>\<open>d.get(key, dflt)\<close>: a value that is not a dict has no such method. Iteration
  runs over the items of a list, the characters of a string and the keys of a dict.
\<close>

definition py_get :: "json \<Rightarrow> string \<Rightarrow> json \<Rightarrow> error + json" where
  "py_get d key dflt =
     (case d of
        JObject kvs \<Rightarrow> Inr (case map_of kvs key of None \<Rightarrow> dflt | Some v \<Rightarrow> v)
      | _ \<Rightarrow> Inl AttributeError)"

definition py_iter :: "json \<Rightarrow> error + json list" where
  "py_iter v =
     (case v of
        JArray xs \<Rightarrow> Inr xs
      | JString s \<Rightarrow> Inr (map (\<lambda>c. JString [c]) s)
      | JObject kvs \<Rightarrow> Inr (map (\<lambda>kv. JString (fst kv)) kvs)
      | _ \<Rightarrow> Inl TypeError)"

fun strings_of :: "json list \<Rightarrow> error + string list" where
  "strings_of [] = Inr []"
| "strings_of (JString s # vs) = then_do (strings_of vs) (\<lambda>ss. Inr (s # ss))"
| "strings_of (v # vs) = Inl TypeError"

text \<open>\<^verbatim>\<open>sep.join(v)\<close> on a decoded value: every item has to be a string.\<close>

definition join_value :: "string \<Rightarrow> json \<Rightarrow> error + string" where
  "join_value sep v = then_do (py_iter v) (\<lambda>items. then_do (strings_of items) (\<lambda>ss. Inr (join sep ss)))"

text \<open>
  A value inside an f-string: a string stands for itself, any other value for what
  \<^verbatim>\<open>str()\<close> makes of it (the parameter \<open>str_of\<close>).
\<close>

definition py_str :: "(json \<Rightarrow> string) \<Rightarrow> json \<Rightarrow> string" where
  "py_str str_of v = (case v of JString s \<Rightarrow> s | _ \<Rightarrow> str_of v)"

text \<open>\<^verbatim>\<open>if cond: content.append(Paragraph(text, style))\<close>: what is appended.\<close>

definition paragraph_if ::
  "(string \<Rightarrow> bool) \<Rightarrow> bool \<Rightarrow> string \<Rightarrow> style \<Rightarrow> error + flowable list" where
  "paragraph_if accepts cond t st =
     (if cond then then_do (new_Paragraph accepts t st) (\<lambda>p. Inr [p]) else Inr [])"

text \<open>
  One round of the loop over the suggestions of \<^verbatim>\<open>generate_updated_resume\<close>: the six
  values are read first, then the paragraphs are made in order.
\<close>

definition suggestion_lines ::
  "(string \<Rightarrow> bool) \<Rightarrow> (json \<Rightarrow> string) \<Rightarrow> json \<Rightarrow> error + flowable list" where
  "suggestion_lines accepts str_of s =
     then_do (py_get s ''section'' (JString [])) (\<lambda>section.
     then_do (py_get s ''current_content'' (JString [])) (\<lambda>current.
     then_do (py_get s ''suggested_change'' (JString [])) (\<lambda>suggested.
     then_do (py_get s ''keywords_to_add'' (JArray [])) (\<lambda>kw.
     then_do (join_value '', '' (if truthy kw then kw else JArray [])) (\<lambda>keywords.
     then_do (py_get s ''formatting_suggestion'' (JString [])) (\<lambda>formatting.
     then_do (py_get s ''reason'' (JString [])) (\<lambda>reason.
     then_do (new_Paragraph accepts (bullet_mark @ '' Section: '' @ py_str str_of section)
                recommendation_style) (\<lambda>p0.
     then_do (paragraph_if accepts (truthy current)
                (''  Current: '' @ py_str str_of current) recommendation_style) (\<lambda>p1.
     then_do (paragraph_if accepts (truthy suggested)
                (''  Suggestion: '' @ py_str str_of suggested) recommendation_style) (\<lambda>p2.
     then_do (paragraph_if accepts (keywords \<noteq> [])
                (''  Keywords to Add: '' @ keywords) recommendation_style) (\<lambda>p3.
     then_do (paragraph_if accepts (truthy formatting)
                (''  Formatting: '' @ py_str str_of formatting) recommendation_style) (\<lambda>p4.
     then_do (paragraph_if accepts (truthy reason)
                (''  Reason: '' @ py_str str_of reason) recommendation_style) (\<lambda>p5.
       Inr (p0 # p1 @ p2 @ p3 @ p4 @ p5 @ [Spacer 1 6]))))))))))))))"

fun suggestions_loop ::
  "(string \<Rightarrow> bool) \<Rightarrow> (json \<Rightarrow> string) \<Rightarrow> json list \<Rightarrow> flowable list \<Rightarrow> error + flowable list" where
  "suggestions_loop accepts str_of [] content = Inr content"
| "suggestions_loop accepts str_of (s # ss) content =
     then_do (suggestion_lines accepts str_of s) (\<lambda>ps.
       suggestions_loop accepts str_of ss (content @ ps))"

text \<open>
  The second part of \<^verbatim>\<open>generate_updated_resume\<close> (lines 171 to 195), on the content
  built so far: the heading of the block is made before the loop starts.
\<close>

definition append_suggestions ::
  "(string \<Rightarrow> bool) \<Rightarrow> (json \<Rightarrow> string) \<Rightarrow> flowable list \<Rightarrow> json \<Rightarrow> error + flowable list" where
  "append_suggestions accepts str_of content match_analysis =
     then_do (py_get (if truthy match_analysis then match_analysis else JObject [])
                ''ats_optimization_suggestions'' (JArray [])) (\<lambda>suggestions.
       if truthy suggestions
       then then_do (new_Paragraph accepts ''ATS Optimization Recommendations''
                       section_header_style) (\<lambda>heading.
            then_do (py_iter suggestions) (\<lambda>items.
              suggestions_loop accepts str_of items (content @ [Spacer 1 20, heading, Spacer 1 10])))
       else Inr content)"

text \<open>
  \<^verbatim>\<open>generate_updated_resume\<close>: the result is the content that is built into the
  document.
\<close>

definition generate_updated_resume ::
  "(string \<Rightarrow> bool) \<Rightarrow> (json \<Rightarrow> string) \<Rightarrow> string \<Rightarrow> json \<Rightarrow> error + flowable list" where
  "generate_updated_resume accepts str_of resume_text match_analysis =
     then_do (resume_content accepts resume_text) (\<lambda>content.
       append_suggestions accepts str_of content match_analysis)"

text \<open>\<^verbatim>\<open>generate_updated_resume1\<close>, the second export.\<close>

definition resume_parts1 :: "string \<Rightarrow> string list" where
  "resume_parts1 resume_text = filter (\<lambda>p. strip p \<noteq> []) (split_newline resume_text)"

definition common_sections1 :: "string list" where
  "common_sections1 = [''EXPERIENCE'', ''EDUCATION'', ''SKILLS'', ''PROJECTS'', ''CERTIFICATIONS'']"

definition is_section1 :: "string \<Rightarrow> bool" where
  "is_section1 part = (isupper part \<or> list_ex (\<lambda>section. sublist section (upper part)) common_sections1)"

fun place_parts1 :: "(string \<Rightarrow> bool) \<Rightarrow> string list \<Rightarrow> flowable list \<Rightarrow> error + flowable list" where
  "place_parts1 accepts [] content = Inr content"
| "place_parts1 accepts (part # rest) content =
     then_do (new_Paragraph accepts part (if is_section1 part then Heading2 else Normal)) (\<lambda>p.
       place_parts1 accepts rest (content @ [p, Spacer 1 6]))"

text \<open>\<^verbatim>\<open>d[key]\<close>: a missing key raises (here as \<open>OtherError\<close>).\<close>

definition py_item :: "json \<Rightarrow> string \<Rightarrow> error + json" where
  "py_item d key =
     (case d of
        JObject kvs \<Rightarrow> (case map_of kvs key of None \<Rightarrow> Inl OtherError | Some v \<Rightarrow> Inr v)
      | _ \<Rightarrow> Inl TypeError)"

text \<open>
  One round of the loop of the second export: every value is read where it is used, so
  a paragraph may be refused before the keywords are joined.
\<close>

definition suggestion_lines1 ::
  "(string \<Rightarrow> bool) \<Rightarrow> (json \<Rightarrow> string) \<Rightarrow> json \<Rightarrow> error + flowable list" where
  "suggestion_lines1 accepts str_of s =
     then_do (py_get s ''section'' (JString [])) (\<lambda>section.
     then_do (new_Paragraph accepts (bullet_mark @ '' Section: '' @ py_str str_of section)
                RecommendationStyle) (\<lambda>p0.
     then_do (py_get s ''current_content'' JNull) (\<lambda>current.
     then_do (paragraph_if accepts (truthy current)
                (''  Current: '' @ py_str str_of current) RecommendationStyle) (\<lambda>p1.
     then_do (py_get s ''suggested_change'' JNull) (\<lambda>suggested.
     then_do (paragraph_if accepts (truthy suggested)
                (''  Suggestion: '' @ py_str str_of suggested) RecommendationStyle) (\<lambda>p2.
     then_do (py_get s ''keywords_to_add'' JNull) (\<lambda>kw.
     then_do (if truthy kw
              then then_do (join_value '', '' kw) (\<lambda>keywords.
                     paragraph_if accepts True (''  Keywords to Add: '' @ keywords) RecommendationStyle)
              else Inr []) (\<lambda>p3.
     then_do (py_get s ''formatting_suggestion'' JNull) (\<lambda>formatting.
     then_do (paragraph_if accepts (truthy formatting)
                (''  Formatting: '' @ py_str str_of formatting) RecommendationStyle) (\<lambda>p4.
       Inr (p0 # p1 @ p2 @ p3 @ p4 @ [Spacer 1 6])))))))))))"

fun suggestions_loop1 ::
  "(string \<Rightarrow> bool) \<Rightarrow> (json \<Rightarrow> string) \<Rightarrow> json list \<Rightarrow> flowable list \<Rightarrow> error + flowable list" where
  "suggestions_loop1 accepts str_of [] content = Inr content"
| "suggestions_loop1 accepts str_of (s # ss) content =
     then_do (suggestion_lines1 accepts str_of s) (\<lambda>ps.
       suggestions_loop1 accepts str_of ss (content @ ps))"

definition generate_updated_resume1 ::
  "(string \<Rightarrow> bool) \<Rightarrow> (json \<Rightarrow> string) \<Rightarrow> string \<Rightarrow> json \<Rightarrow> error + flowable list" where
  "generate_updated_resume1 accepts str_of resume_text match_analysis =
     then_do (new_Paragraph accepts ''Updated Resume'' Heading1) (\<lambda>title.
     then_do (place_parts1 accepts (resume_parts1 resume_text) [title, Spacer 1 12]) (\<lambda>content.
     then_do (py_get (if truthy match_analysis then match_analysis else JObject [])
                ''ats_optimization_suggestions'' JNull) (\<lambda>found.
       if truthy found
       then then_do (new_Paragraph accepts ''ATS Optimization Recommendations'' Heading2) (\<lambda>heading.
            then_do (py_item match_analysis ''ats_optimization_suggestions'') (\<lambda>suggestions.
            then_do (py_iter suggestions) (\<lambda>items.
              suggestions_loop1 accepts str_of items (content @ [Spacer 1 12, heading, Spacer 1 8]))))
       else Inr content)))"

subsection \<open>Definitions that the statements use\<close>

text \<open>
  The span from the first opening brace of a text to its last closing brace, if one
  follows that opening brace.
\<close>

definition first_to_last_brace :: "string \<Rightarrow> string option" where
  "first_to_last_brace raw =
     (case dropWhile (\<lambda>c. c \<noteq> CHR ''{'') raw of
        [] \<Rightarrow> None
      | c # body \<Rightarrow>
          if CHR ''}'' \<in> set body
          then Some (c # rev (dropWhile (\<lambda>c. c \<noteq> CHR ''}'') (rev body)))
          else None)"

text \<open>A text that ends in a closing brace, or in one and a line feed.\<close>

definition ends_in_brace :: "string \<Rightarrow> bool" where
  "ends_in_brace s = (\<exists>p. s = p @ ''}'' \<or> s = p @ [CHR ''}'', CHR 10])"

text \<open>
  The extraction as the specification words it, for comparison with \<open>extract_json\<close>:
  the whole text; then the span that ends the text; then, when that span is missing or
  does not parse, the first minimal span, from the first opening brace to the first
  closing brace after it; then the empty mapping.
\<close>

definition minimal_span :: "string \<Rightarrow> string option" where
  "minimal_span raw =
     (case dropWhile (\<lambda>c. c \<noteq> CHR ''{'') raw of
        [] \<Rightarrow> None
      | c # body \<Rightarrow>
          if CHR ''}'' \<in> set body
          then Some (c # takeWhile (\<lambda>c. c \<noteq> CHR ''}'') body @ ''}'')
          else None)"

definition extract_as_specified :: "(string \<Rightarrow> error + json) \<Rightarrow> string \<Rightarrow> error + json" where
  "extract_as_specified loads raw =
     (let step3 = (case minimal_span raw of
                     None \<Rightarrow> Inr (JObject [])
                   | Some m \<Rightarrow> (case loads m of Inr v \<Rightarrow> Inr v | Inl e \<Rightarrow> Inr (JObject [])))
      in case loads raw of
           Inr v \<Rightarrow> Inr v
         | Inl e \<Rightarrow>
             (case re_search True raw of
                None \<Rightarrow> step3
              | Some m \<Rightarrow> (case loads m of Inr v \<Rightarrow> Inr v | Inl e' \<Rightarrow> step3)))"

text \<open>
  Stubbed backends: one that answers every request with the same response, and one whose
  response is an aggregated text and no candidates. And a client made with the defaults.
\<close>

definition reply_backend :: "response \<Rightarrow> unit backend" where
  "reply_backend r req b = (Inr r, b)"

definition stub_backend :: "string \<Rightarrow> unit backend" where
  "stub_backend t = reply_backend (Response (Inr (Some t)) (Inr []))"

text \<open>A part whose text is there and not empty.\<close>

definition part_has_text :: "part \<Rightarrow> bool" where
  "part_has_text p = (case part_text p of Inr (Some s) \<Rightarrow> s \<noteq> [] | _ \<Rightarrow> False)"

definition default_client :: LLMClient where
  "default_client = \<lparr>model_name = ''models/gemini-2.0-flash'', temperature = 0.2\<rparr>"

text \<open>
  A response with no text: the aggregated field raises, and no part has a text that is
  not empty.
\<close>

definition silent_response :: response where
  "silent_response =
     Response (Inl ValueError)
       (Inr [Candidate (Inr [Part (Inr None), Part (Inl AttributeError), Part (Inr (Some []))]),
             Candidate (Inr [])])"

text \<open>
  A text of five thousand digits and a letter: it is not JSON, and the decoder fails on
  its integer before it reaches the letter.
\<close>

definition long_number :: string where
  "long_number = replicate 5000 (CHR ''1'') @ ''x''"




text \<open>
  A content that is built paragraph by paragraph is there when the renderer accepts the
  text of each of its paragraphs; otherwise the first text it refuses raises.
\<close>

definition flowable_ok :: "(string \<Rightarrow> bool) \<Rightarrow> flowable \<Rightarrow> bool" where
  "flowable_ok accepts f = (case f of Paragraph t st \<Rightarrow> accepts t | Spacer w h \<Rightarrow> True)"

definition built :: "(string \<Rightarrow> bool) \<Rightarrow> flowable list \<Rightarrow> error + flowable list" where
  "built accepts fs = (if list_all (flowable_ok accepts) fs then Inr fs else Inl ValueError)"

text \<open>
  A renderer for the concrete inputs: it accepts exactly the texts that hold neither of
  the two characters that start markup. The document library accepts such a text as it
  is, and refuses, among others, a text in which a tag is left open.
\<close>

definition markup_free :: "string \<Rightarrow> bool" where
  "markup_free t = (CHR ''<'' \<notin> set t \<and> CHR ''&'' \<notin> set t)"



text \<open>
  A suggestion of the shape the match report has: an object whose textual fields, where
  present, are strings or null, and whose keywords, where present, are null or a list of
  strings. The text of a field is empty when the field is absent or null.
\<close>

definition text_field_ok :: "(string \<times> json) list \<Rightarrow> string \<Rightarrow> bool" where
  "text_field_ok kvs k =
     (case map_of kvs k of
        None \<Rightarrow> True
      | Some (JString t) \<Rightarrow> True
      | Some JNull \<Rightarrow> True
      | Some _ \<Rightarrow> False)"

definition is_JString :: "json \<Rightarrow> bool" where
  "is_JString v = (case v of JString t \<Rightarrow> True | _ \<Rightarrow> False)"

definition keywords_ok :: "(string \<times> json) list \<Rightarrow> bool" where
  "keywords_ok kvs =
     (case map_of kvs ''keywords_to_add'' of
        None \<Rightarrow> True
      | Some JNull \<Rightarrow> True
      | Some (JArray ks) \<Rightarrow> list_all is_JString ks
      | Some _ \<Rightarrow> False)"

definition wf_suggestion :: "json \<Rightarrow> bool" where
  "wf_suggestion s =
     (case s of
        JObject kvs \<Rightarrow>
          text_field_ok kvs ''section'' \<and> text_field_ok kvs ''current_content''
          \<and> text_field_ok kvs ''suggested_change'' \<and> keywords_ok kvs
          \<and> text_field_ok kvs ''formatting_suggestion'' \<and> text_field_ok kvs ''reason''
      | _ \<Rightarrow> False)"

definition text_of :: "json \<Rightarrow> string" where
  "text_of v = (case v of JString t \<Rightarrow> t | _ \<Rightarrow> [])"

definition field :: "json \<Rightarrow> string \<Rightarrow> string" where
  "field s k = (case s of JObject kvs \<Rightarrow> (case map_of kvs k of None \<Rightarrow> [] | Some v \<Rightarrow> text_of v) | _ \<Rightarrow> [])"

text \<open>
  The section as the entry shows it: a section that is null is shown as \<^verbatim>\<open>str()\<close>
  shows \<^verbatim>\<open>None\<close>.
\<close>

definition section_of :: "(json \<Rightarrow> string) \<Rightarrow> json \<Rightarrow> string" where
  "section_of str_of s =
     (case s of
        JObject kvs \<Rightarrow> (case map_of kvs ''section'' of None \<Rightarrow> [] | Some v \<Rightarrow> py_str str_of v)
      | _ \<Rightarrow> [])"

definition keywords_of :: "json \<Rightarrow> string list" where
  "keywords_of s =
     (case s of
        JObject kvs \<Rightarrow>
          (case map_of kvs ''keywords_to_add'' of Some (JArray ks) \<Rightarrow> map text_of ks | _ \<Rightarrow> [])
      | _ \<Rightarrow> [])"

text \<open>A line of an entry that is there only when its text is not empty.\<close>

definition optional_line :: "string \<Rightarrow> string \<Rightarrow> flowable list" where
  "optional_line label v = (if v = [] then [] else [Paragraph (label @ v) recommendation_style])"

text \<open>A match report with three suggestions.\<close>

definition example_suggestions :: "json list" where
  "example_suggestions =
     [JObject [(''section'', JString ''Skills''), (''reason'', JString ''Missing keywords'')],
      JObject [(''section'', JString ''Experience''),
               (''keywords_to_add'', JArray [JString ''Docker'', JString ''CI'']),
               (''current_content'', JString [])],
      JObject [(''section'', JString ''Summary''), (''suggested_change'', JNull),
               (''keywords_to_add'', JNull), (''formatting_suggestion'', JString ''One page'')]]"

definition example_report :: "(string \<times> json) list" where
  "example_report =
     [(''overall_match_percentage'', JString ''70%''),
      (''ats_optimization_suggestions'', JArray example_suggestions)]"

text \<open>
  A text that is not JSON and holds a span in braces whose value is an integer of five
  thousand digits.
\<close>

definition long_number_span :: string where
  \<open>long_number_span = ''see {"n": '' @ replicate 5000 (CHR ''1'') @ ''}''\<close>


subsection \<open>The decoder consumes what it reads\<close>

lemma length_skip_ws: "length (skip_ws s) \<le> length s"
  by (simp add: skip_ws_def length_dropWhile_le)

lemma skip_ws_Cons_shorter: "skip_ws r = d # r' \<Longrightarrow> length r' < length r"
  using length_skip_ws[of r] by simp

lemma then_do_Inr: "then_do r f = Inr y \<Longrightarrow> \<exists>x. r = Inr x \<and> f x = Inr y"
  by (cases r) (simp_all add: then_do_def)

lemma scanstring_shorter: "scanstring s = Inr (t, rest) \<Longrightarrow> length rest < length s"
proof (induction s arbitrary: t rest rule: scanstring.induct)
  case 1
  then show ?case by simp
next
  case (2 c)
  then show ?case by (simp split: if_splits)
next
  case (3 c e r)
  show ?case
  proof (cases "c = CHR 0x22")
    case True
    with 3 show ?thesis by simp
  next
    case nq: False
    show ?thesis
    proof (cases "c = CHR 0x5C")
      case bs: True
      show ?thesis
      proof (cases "e = CHR ''u''")
        case True
        from "3.prems" nq bs True
        have "(\<exists>t'. scanstring (drop 10 r) = Inr (t', rest)
                \<and> \<not> (length r < 4 \<or> \<not> list_all is_hexdigit (take 4 r))
                \<and> (55296 \<le> hex4 (take 4 r) \<and> hex4 (take 4 r) \<le> 56319
                    \<and> take 2 (drop 4 r) = [CHR 0x5C, CHR ''u''])
                \<and> \<not> (length r < 10 \<or> \<not> list_all is_hexdigit (take 4 (drop 6 r)))
                \<and> (56320 \<le> hex4 (take 4 (drop 6 r)) \<and> hex4 (take 4 (drop 6 r)) \<le> 57343))
             \<or> (\<exists>t'. scanstring (drop 4 r) = Inr (t', rest)
                \<and> \<not> (length r < 4 \<or> \<not> list_all is_hexdigit (take 4 r)))"
          by (auto split: if_splits prod.splits dest!: then_do_Inr)
        then show ?thesis
        proof
          assume a: "\<exists>t'. scanstring (drop 10 r) = Inr (t', rest)
                \<and> \<not> (length r < 4 \<or> \<not> list_all is_hexdigit (take 4 r))
                \<and> (55296 \<le> hex4 (take 4 r) \<and> hex4 (take 4 r) \<le> 56319
                    \<and> take 2 (drop 4 r) = [CHR 0x5C, CHR ''u''])
                \<and> \<not> (length r < 10 \<or> \<not> list_all is_hexdigit (take 4 (drop 6 r)))
                \<and> (56320 \<le> hex4 (take 4 (drop 6 r)) \<and> hex4 (take 4 (drop 6 r)) \<le> 57343)"
          then obtain t' where s: "scanstring (drop 10 r) = Inr (t', rest)" by blast
          from a "3.IH"(1)[OF nq bs True _ _ _ _ s] have "length rest < length (drop 10 r)" by blast
          then show ?thesis by simp
        next
          assume a: "\<exists>t'. scanstring (drop 4 r) = Inr (t', rest)
                \<and> \<not> (length r < 4 \<or> \<not> list_all is_hexdigit (take 4 r))"
          then obtain t' where s: "scanstring (drop 4 r) = Inr (t', rest)"
            and h: "\<not> (length r < 4 \<or> \<not> list_all is_hexdigit (take 4 r))" by blast
          have "length rest < length (drop 4 r)"
          proof (cases "55296 \<le> hex4 (take 4 r) \<and> hex4 (take 4 r) \<le> 56319
                    \<and> take 2 (drop 4 r) = [CHR 0x5C, CHR ''u'']")
            case False
            from "3.IH"(3)[OF nq bs True h False s] show ?thesis .
          next
            case sur: True
            show ?thesis
            proof (cases "length r < 10 \<or> \<not> list_all is_hexdigit (take 4 (drop 6 r))")
              case True
              with "3.prems" nq bs \<open>e = CHR ''u''\<close> h sur show ?thesis by simp
            next
              case l: False
              show ?thesis
              proof (cases "56320 \<le> hex4 (take 4 (drop 6 r)) \<and> hex4 (take 4 (drop 6 r)) \<le> 57343")
                case False
                from "3.IH"(2)[OF nq bs True h sur l False s] show ?thesis .
              next
                case low: True
                with "3.prems" nq bs \<open>e = CHR ''u''\<close> h sur l
                obtain t'' where s10: "scanstring (drop 10 r) = Inr (t'', rest)"
                  by (auto split: prod.splits dest!: then_do_Inr)
                from "3.IH"(1)[OF nq bs True h sur l low s10] have "length rest < length (drop 10 r)" .
                then show ?thesis by simp
              qed
            qed
          qed
          then show ?thesis by simp
        qed
      next
        case False
        with "3.prems" nq bs obtain d t' where "unescape e = Some d" "scanstring r = Inr (t', rest)"
          by (auto split: if_splits option.splits prod.splits dest!: then_do_Inr)
        with "3.IH"(4)[OF nq bs False] have "length rest < length r" by auto
        then show ?thesis by simp
      qed
    next
      case False
      with "3.prems" nq obtain t' where "\<not> py_ord c < 32" "scanstring (e # r) = Inr (t', rest)"
        by (auto split: if_splits prod.splits dest!: then_do_Inr)
      with "3.IH"(5)[OF nq False] have "length rest < length (e # r)" by auto
      then show ?thesis by simp
    qed
  qed
qed

lemma scan_word_shorter: "w \<noteq> [] \<Longrightarrow> scan_word w v s = Some (x, rest) \<Longrightarrow> length rest < length s"
  by (cases s) (auto simp: scan_word_def split: if_splits)

lemma scan_number_shorter: "scan_number s = Some (Inr (n, rest)) \<Longrightarrow> length rest < length s"
proof -
  assume a: "scan_number s = Some (Inr (n, rest))"
  then obtain i r where i: "scan_int s = Some (i, r)" by (auto simp: scan_number_def split: option.splits)
  have dw: "\<And>xs. length (dropWhile is_digit xs) \<le> length xs" by (simp add: length_dropWhile_le)
  from i have r: "length r < length s"
    using dw by (auto simp: scan_int_def Let_def split: list.splits if_splits prod.splits intro: le_imp_less_Suc le_SucI)
  have f: "length (snd (scan_frac r)) \<le> length r"
    using dw by (auto simp: scan_frac_def split: list.splits intro: le_SucI)
  have e: "\<And>x. length (snd (scan_exp x)) \<le> length x"
    using dw by (auto simp: scan_exp_def Let_def split: list.splits prod.splits intro: le_SucI)
  from a i have "rest = snd (scan_exp (snd (scan_frac r)))"
    by (auto simp: scan_number_def Let_def split: prod.splits if_splits)
  with r f e[of "snd (scan_frac r)"] show ?thesis by simp
qed

lemma scan_atom_shorter: "scan_atom s = Inr (v, rest) \<Longrightarrow> length rest < length s"
  unfolding scan_atom_def
  by (auto split: option.splits sum.splits prod.splits simp: then_do_def
        dest: scan_word_shorter[rotated] scan_number_shorter)

lemma scan_shorter:
  shows "scan_once s = Inr (v, rest) \<Longrightarrow> length rest < length s"
    and "JSONArray acc s1 = Inr (v1, rest1) \<Longrightarrow> length rest1 < length s1"
    and "JSONObject acc2 s2 = Inr (v2, rest2) \<Longrightarrow> length rest2 < length s2"
proof (induction s and acc s1 and acc2 s2 arbitrary: v rest and v1 rest1 and v2 rest2
    rule: scan_once_JSONArray_JSONObject.induct)
  case 1
  then show ?case by simp
next
  case (2 c r)
  show ?case
  proof (cases "c = CHR 0x22")
    case True
    with "2.prems" show ?thesis by (auto split: prod.splits dest!: then_do_Inr dest: scanstring_shorter)
  next
    case nq: False
    show ?thesis
    proof (cases "c = CHR ''{''")
      case True
      show ?thesis
      proof (cases "skip_ws r")
        case Nil
        with "2.prems" nq True show ?thesis by simp
      next
        case (Cons d r')
        then have l: "length (d # r') \<le> length r" using length_skip_ws[of r] by simp
        show ?thesis
        proof (cases "d = CHR ''}''")
          case t: True
          with "2.prems" nq True Cons l show ?thesis by auto
        next
          case False
          with "2.prems" nq True Cons have "JSONObject [] (d # r') = Inr (v, rest)"
            by (simp del: JSONObject.simps)
          with "2.IH"(1)[OF nq True Cons False] l show ?thesis by simp
        qed
      qed
    next
      case nb: False
      show ?thesis
      proof (cases "c = CHR ''[''")
        case True
        show ?thesis
        proof (cases "skip_ws r")
          case Nil
          with "2.prems" nq nb True show ?thesis by simp
        next
          case (Cons d r')
          then have l: "length (d # r') \<le> length r" using length_skip_ws[of r] by simp
          show ?thesis
          proof (cases "d = CHR '']''")
            case t: True
            with "2.prems" nq nb True Cons l show ?thesis by auto
          next
            case False
            with "2.prems" nq nb True Cons have "JSONArray [] (d # r') = Inr (v, rest)"
              by (simp del: JSONArray.simps)
            with "2.IH"(2)[OF nq nb True Cons False] l show ?thesis by simp
          qed
        qed
      next
        case False
        with "2.prems" nq nb show ?thesis by (auto dest: scan_atom_shorter)
      qed
    qed
  qed
next
  case (3 acc s)
  from "3.prems" obtain x rest0 where so: "scan_once s = Inr (x, rest0)"
    by (auto split: sum.splits)
  with "3.IH"(1) have l0: "length rest0 < length s" by simp
  from "3.prems" so obtain d r' where sk: "skip_ws rest0 = d # r'"
    by (auto split: list.splits)
  then have l1: "length r' < length rest0" by (rule skip_ws_Cons_shorter)
  show ?case
  proof (cases "d = CHR '']''")
    case True
    with "3.prems" so sk l0 l1 show ?thesis by auto
  next
    case False
    with "3.prems" so sk have c: "d = CHR '',''" "length r' < length s"
      and rec: "JSONArray (acc @ [x]) (skip_ws r') = Inr (v1, rest1)"
      by (auto split: if_splits)
    from "3.IH"(2)[OF so refl sk False] c rec have "length rest1 < length (skip_ws r')" by simp
    with length_skip_ws[of r'] c show ?thesis by simp
  qed
next
  case (4 acc)
  then show ?case by simp
next
  case (5 acc q s)
  from "5.prems" have q: "q = CHR 0x22" by (auto split: if_splits)
  with "5.prems" obtain key r0 where ss: "scanstring s = Inr (key, r0)"
    by (auto split: sum.splits)
  from "5.prems" q ss obtain col r1 where sk0: "skip_ws r0 = col # r1"
    by (auto split: list.splits)
  from "5.prems" q ss sk0 have col: "\<not> (col \<noteq> CHR '':'' \<or> \<not> length r1 < length s)"
    by (auto split: if_splits)
  with "5.prems" q ss sk0 obtain x rest0 where so: "scan_once (skip_ws r1) = Inr (x, rest0)"
    by (auto split: sum.splits)
  have nq: "\<not> q \<noteq> CHR 0x22" using q by simp
  from "5.IH"(1)[OF nq ss refl sk0 col so] have l0: "length rest0 < length (skip_ws r1)" .
  with length_skip_ws[of r1] col have l0': "length rest0 < length s" by simp
  from "5.prems" q ss sk0 col so obtain d r' where sk: "skip_ws rest0 = d # r'"
    by (auto split: list.splits)
  then have l1: "length r' < length rest0" by (rule skip_ws_Cons_shorter)
  show ?case
  proof (cases "d = CHR ''}''")
    case True
    with "5.prems" q ss sk0 col so sk l0' l1 show ?thesis by auto
  next
    case False
    with "5.prems" q ss sk0 col so sk have c: "d = CHR '',''" "length r' < length s"
      and rec: "JSONObject (AList.update key x acc) (skip_ws r') = Inr (v2, rest2)"
      by (auto split: if_splits)
    from "5.IH"(2)[OF nq ss refl sk0 col so refl sk False] c rec
    have "length rest2 < length (skip_ws r')" by simp
    with length_skip_ws[of r'] c show ?thesis by simp
  qed
qed

lemma JSONArray_unguarded:
  "JSONArray acc s =
     (case scan_once s of
        Inl e \<Rightarrow> Inl e
      | Inr (v, rest) \<Rightarrow>
          (case skip_ws rest of
             [] \<Rightarrow> Inl JSONDecodeError
           | d # r' \<Rightarrow>
               if d = CHR '']'' then Inr (JArray (acc @ [v]), r')
               else if d = CHR '','' then JSONArray (acc @ [v]) (skip_ws r')
               else Inl JSONDecodeError))"
proof (cases "scan_once s")
  case (Inl e)
  then show ?thesis by simp
next
  case (Inr p)
  obtain v rest where p: "p = (v, rest)" by (cases p)
  with Inr have l: "length rest < length s" by (auto dest: scan_shorter(1))
  show ?thesis
  proof (cases "skip_ws rest")
    case Nil
    with Inr p show ?thesis by simp
  next
    case (Cons d r')
    then have "length r' < length rest" by (rule skip_ws_Cons_shorter)
    with l have "length r' < length s" by simp
    with Inr p Cons show ?thesis by (simp del: scan_once.simps)
  qed
qed

lemma JSONObject_unguarded:
  "JSONObject acc (q # s) =
     (if q \<noteq> CHR 0x22 then Inl JSONDecodeError
      else (case scanstring s of
        Inl e \<Rightarrow> Inl e
      | Inr (key, r0) \<Rightarrow>
          (case skip_ws r0 of
             [] \<Rightarrow> Inl JSONDecodeError
           | col # r1 \<Rightarrow>
               if col \<noteq> CHR '':'' then Inl JSONDecodeError
               else (case scan_once (skip_ws r1) of
                 Inl e \<Rightarrow> Inl e
               | Inr (v, rest) \<Rightarrow>
                   (case skip_ws rest of
                      [] \<Rightarrow> Inl JSONDecodeError
                    | d # r' \<Rightarrow>
                        if d = CHR ''}'' then Inr (JObject (AList.update key v acc), r')
                        else if d = CHR '','' then JSONObject (AList.update key v acc) (skip_ws r')
                        else Inl JSONDecodeError)))))"
proof (cases "scanstring s")
  case (Inl e)
  then show ?thesis by simp
next
  case (Inr p)
  obtain key r0 where p: "p = (key, r0)" by (cases p)
  with Inr have l0: "length r0 < length s" by (auto dest: scanstring_shorter)
  show ?thesis
  proof (cases "skip_ws r0")
    case Nil
    with Inr p show ?thesis by simp
  next
    case (Cons col r1)
    then have "length r1 < length r0" by (rule skip_ws_Cons_shorter)
    with l0 have l1: "length r1 < length s" by simp
    show ?thesis
    proof (cases "scan_once (skip_ws r1)")
      case il: (Inl e)
      with Inr p Cons l1 show ?thesis by (simp del: scan_once.simps)
    next
      case so: (Inr p')
      obtain v rest where p': "p' = (v, rest)" by (cases p')
      with so have "length rest < length (skip_ws r1)" by (auto dest: scan_shorter(1))
      with length_skip_ws[of r1] l1 have l2: "length rest < length s" by simp
      show ?thesis
      proof (cases "skip_ws rest")
        case Nil
        with Inr p Cons l1 so p' show ?thesis by (simp del: scan_once.simps)
      next
        case c: (Cons d r')
        then have "length r' < length rest" by (rule skip_ws_Cons_shorter)
        with l2 have "length r' < length s" by simp
        with Inr p Cons l1 so p' c show ?thesis by (simp del: scan_once.simps)
      qed
    qed
  qed
qed


subsection \<open>The span that is parsed\<close>

lemma rev_dropWhile_Cons:
  "rev (dropWhile P (rev (c # cs))) =
     (if \<exists>x\<in>set cs. \<not> P x then c # rev (dropWhile P (rev cs))
      else if P c then [] else [c])"
proof (cases "\<exists>x\<in>set cs. \<not> P x")
  case True
  then obtain x where "x \<in> set (rev cs)" "\<not> P x" by auto
  then have "dropWhile P (rev cs @ [c]) = dropWhile P (rev cs) @ [c]" by (rule dropWhile_append1)
  with True show ?thesis by simp
next
  case False
  then have "\<And>x. x \<in> set (rev cs) \<Longrightarrow> P x" by simp
  then have "dropWhile P (rev cs @ [c]) = dropWhile P [c]" by (rule dropWhile_append2)
  with False show ?thesis by simp
qed

lemma greedy_close_unanchored:
  "greedy_close False s =
     (if CHR ''}'' \<in> set s then Some (rev (dropWhile (\<lambda>c. c \<noteq> CHR ''}'') (rev s))) else None)"
proof (induction s)
  case Nil
  show ?case by simp
next
  case (Cons c cs)
  show ?case
    unfolding rev_dropWhile_Cons using Cons by auto
qed

lemma re_search_unanchored: "re_search False raw = first_to_last_brace raw"
proof (induction raw)
  case Nil
  show ?case by (simp add: first_to_last_brace_def)
next
  case (Cons c cs)
  show ?case
  proof (cases "c = CHR ''{''")
    case True
    show ?thesis
    proof (cases "CHR ''}'' \<in> set cs")
      case t: True
      with True show ?thesis by (simp add: first_to_last_brace_def greedy_close_unanchored)
    next
      case f: False
      have "CHR ''}'' \<notin> set (dropWhile (\<lambda>c. c \<noteq> CHR ''{'') cs)"
        using f set_dropWhileD by fastforce
      then have "first_to_last_brace cs = None"
        by (auto simp: first_to_last_brace_def split: list.splits)
      with True f Cons show ?thesis by (simp add: first_to_last_brace_def greedy_close_unanchored)
    qed
  next
    case False
    with Cons show ?thesis by (simp add: first_to_last_brace_def)
  qed
qed

lemma greedy_close_anchored_None: "greedy_close True s = None \<longleftrightarrow> \<not> ends_in_brace s"
proof (induction s)
  case Nil
  show ?case by (simp add: ends_in_brace_def)
next
  case (Cons c cs)
  have *: "ends_in_brace (c # cs) \<longleftrightarrow> ends_in_brace cs \<or> (c = CHR ''}'' \<and> at_end cs)"
    unfolding ends_in_brace_def at_end_def
    by (auto simp: Cons_eq_append_conv)
  show ?case using Cons by (auto simp: * split: option.splits)
qed

lemma ends_in_brace_Cons: "ends_in_brace cs \<Longrightarrow> ends_in_brace (c # cs)"
  unfolding ends_in_brace_def by (metis append_Cons)

lemma re_search_anchored_ends: "re_search True s = Some m \<Longrightarrow> ends_in_brace s"
proof (induction s arbitrary: m)
  case Nil
  then show ?case by simp
next
  case (Cons c cs)
  show ?case
  proof (cases "ends_in_brace cs")
    case True
    then show ?thesis by (rule ends_in_brace_Cons)
  next
    case False
    then have g: "greedy_close True cs = None" by (simp add: greedy_close_anchored_None)
    from False Cons.IH have "re_search True cs = None" by (cases "re_search True cs") auto
    with g Cons.prems show ?thesis by (simp split: if_splits)
  qed
qed

lemma greedy_close_anchored_imp: "greedy_close True s = Some m \<Longrightarrow> greedy_close False s = Some m"
proof (induction s arbitrary: m)
  case Nil
  then show ?case by simp
next
  case (Cons c cs)
  show ?case
  proof (cases "greedy_close True cs")
    case None
    with Cons.prems have c: "c = CHR ''}''" "at_end cs" "m = [c]"
      by (auto split: if_splits)
    then have "CHR ''}'' \<notin> set cs" by (auto simp: at_end_def)
    then have "greedy_close False cs = None" by (simp add: greedy_close_unanchored)
    with c show ?thesis by simp
  next
    case (Some m')
    with Cons show ?thesis by auto
  qed
qed

lemma re_search_anchored_imp: "re_search True raw = Some m \<Longrightarrow> re_search False raw = Some m"
proof (induction raw)
  case Nil
  then show ?case by simp
next
  case (Cons c cs)
  show ?case
  proof (cases "c = CHR ''{''")
    case False
    with Cons show ?thesis by simp
  next
    case True
    show ?thesis
    proof (cases "greedy_close True cs")
      case (Some m')
      with True Cons.prems greedy_close_anchored_imp[OF Some] show ?thesis by simp
    next
      case None
      then have "\<not> ends_in_brace cs" by (simp add: greedy_close_anchored_None)
      then have "re_search True cs = None" using re_search_anchored_ends by (cases "re_search True cs") auto
      with True None Cons.prems show ?thesis by simp
    qed
  qed
qed

lemma find_span_eq: "find_span raw = first_to_last_brace raw"
  using re_search_anchored_imp[of raw]
  by (auto simp: find_span_def re_search_unanchored split: option.splits)

lemma first_to_last_brace_Some:
  "first_to_last_brace raw = Some m \<longleftrightarrow>
     (\<exists>pre mid post. raw = pre @ m @ post \<and> m = CHR ''{'' # mid @ ''}'' \<and>
        CHR ''{'' \<notin> set pre \<and> CHR ''}'' \<notin> set post)"
proof
  assume a: "first_to_last_brace raw = Some m"
  let ?P = "\<lambda>c. c \<noteq> CHR ''{''" and ?Q = "\<lambda>c. c \<noteq> CHR ''}''"
  from a obtain c body where d: "dropWhile ?P raw = c # body" and mem: "CHR ''}'' \<in> set body"
    and m: "m = c # rev (dropWhile ?Q (rev body))"
    by (auto simp: first_to_last_brace_def split: list.splits if_splits)
  from d have c: "c = CHR ''{''" using hd_dropWhile[of ?P raw] by auto
  have raw: "raw = takeWhile ?P raw @ c # body" using d takeWhile_dropWhile_id[of ?P raw] by simp
  have pre: "CHR ''{'' \<notin> set (takeWhile ?P raw)" using set_takeWhileD by fastforce
  from mem have ne: "dropWhile ?Q (rev body) \<noteq> []" by (auto simp: dropWhile_eq_Nil_conv)
  then have "hd (dropWhile ?Q (rev body)) = CHR ''}''" using hd_dropWhile[of ?Q "rev body"] by auto
  with ne obtain t where t: "dropWhile ?Q (rev body) = CHR ''}'' # t" by (cases "dropWhile ?Q (rev body)") auto
  have "rev body = takeWhile ?Q (rev body) @ dropWhile ?Q (rev body)" by simp
  then have "body = rev (dropWhile ?Q (rev body)) @ rev (takeWhile ?Q (rev body))"
    by (metis rev_append rev_rev_ident)
  with t have body: "body = (rev t @ ''}'') @ rev (takeWhile ?Q (rev body))" by simp
  have post: "CHR ''}'' \<notin> set (rev (takeWhile ?Q (rev body)))" using set_takeWhileD by fastforce
  from m t c have m': "m = CHR ''{'' # rev t @ ''}''" by simp
  have "raw = takeWhile ?P raw @ m @ rev (takeWhile ?Q (rev body))"
    using raw body m' c by simp
  with m' pre post show "\<exists>pre mid post. raw = pre @ m @ post \<and> m = CHR ''{'' # mid @ ''}'' \<and>
        CHR ''{'' \<notin> set pre \<and> CHR ''}'' \<notin> set post" by blast
next
  assume "\<exists>pre mid post. raw = pre @ m @ post \<and> m = CHR ''{'' # mid @ ''}'' \<and>
        CHR ''{'' \<notin> set pre \<and> CHR ''}'' \<notin> set post"
  then obtain pre mid post where raw: "raw = pre @ m @ post" and m: "m = CHR ''{'' # mid @ ''}''"
    and pre: "CHR ''{'' \<notin> set pre" and post: "CHR ''}'' \<notin> set post" by blast
  let ?P = "\<lambda>c. c \<noteq> CHR ''{''" and ?Q = "\<lambda>c. c \<noteq> CHR ''}''"
  from pre have "\<And>x. x \<in> set pre \<Longrightarrow> ?P x" by auto
  then have "dropWhile ?P (pre @ m @ post) = dropWhile ?P (m @ post)" by (rule dropWhile_append2)
  with raw m have d: "dropWhile ?P raw = CHR ''{'' # mid @ ''}'' @ post" by simp
  from post have "\<And>x. x \<in> set (rev post) \<Longrightarrow> ?Q x" by auto
  then have "dropWhile ?Q (rev post @ CHR ''}'' # rev mid) = dropWhile ?Q (CHR ''}'' # rev mid)"
    by (rule dropWhile_append2)
  then have "rev (dropWhile ?Q (rev (mid @ ''}'' @ post))) = mid @ ''}''" by simp
  with d m show "first_to_last_brace raw = Some m" by (simp add: first_to_last_brace_def)
qed

lemma first_to_last_brace_None:
  "first_to_last_brace raw = None \<longleftrightarrow> CHR ''}'' \<notin> set (dropWhile (\<lambda>c. c \<noteq> CHR ''{'') raw)"
proof (cases "dropWhile (\<lambda>c. c \<noteq> CHR ''{'') raw")
  case Nil
  show ?thesis unfolding first_to_last_brace_def Nil by simp
next
  case (Cons c body)
  then have "c = CHR ''{''" using hd_dropWhile[of "\<lambda>c. c \<noteq> CHR ''{''" raw] by auto
  with Cons show ?thesis by (simp add: first_to_last_brace_def)
qed


subsection \<open>Structured extraction\<close>

text \<open>
  C1, amended. After the whole text has failed to parse, \<^verbatim>\<open>generate_json\<close> parses
  one span and no other: the span from the first opening brace of the raw text to its
  last closing brace. The search that is anchored at the end and the search that is not
  are both greedy, and whenever the anchored one matches, the other would match the same
  text; the second search runs only when the first finds nothing, not when its span
  fails to parse. If there is no such span, or it does not parse, the result is the
  empty mapping; an exception of the decoder other than \<^verbatim>\<open>JSONDecodeError\<close> is
  not caught. No minimal span is looked for.
\<close>

theorem generate_json_one_span:
  "extract_json loads raw =
     (case loads raw of
        Inr v \<Rightarrow> Inr v
      | Inl e \<Rightarrow>
          if e \<noteq> JSONDecodeError then Inl e
          else (case first_to_last_brace raw of
                  None \<Rightarrow> Inr (JObject [])
                | Some m \<Rightarrow>
                    (case loads m of
                       Inr v \<Rightarrow> Inr v
                     | Inl e' \<Rightarrow> if e' \<noteq> JSONDecodeError then Inl e' else Inr (JObject []))))
   \<and> (first_to_last_brace raw = Some m) =
       (\<exists>pre mid post. raw = pre @ m @ post \<and> m = CHR ''{'' # mid @ ''}'' \<and>
          CHR ''{'' \<notin> set pre \<and> CHR ''}'' \<notin> set post)
   \<and> (first_to_last_brace raw = None) =
       (CHR ''}'' \<notin> set (dropWhile (\<lambda>c. c \<noteq> CHR ''{'') raw))"
proof (intro conjI)
  show "extract_json loads raw =
     (case loads raw of
        Inr v \<Rightarrow> Inr v
      | Inl e \<Rightarrow>
          if e \<noteq> JSONDecodeError then Inl e
          else (case first_to_last_brace raw of
                  None \<Rightarrow> Inr (JObject [])
                | Some m \<Rightarrow>
                    (case loads m of
                       Inr v \<Rightarrow> Inr v
                     | Inl e' \<Rightarrow> if e' \<noteq> JSONDecodeError then Inl e' else Inr (JObject []))))"
    unfolding extract_json_def find_span_eq ..
qed (rule first_to_last_brace_Some first_to_last_brace_None)+

text \<open>
  C1 as stated fails. In the text below the whole text does not parse, the span up to
  the end of the text is the whole text again, and the first minimal span is a valid
  object: the extraction as the specification words it returns that object, the code
  returns the empty mapping.
\<close>

theorem generate_json_minimal_span_counterexample:
  \<open>json_loads ''{"a":1} and {oops}'' = Inl JSONDecodeError
   \<and> re_search True ''{"a":1} and {oops}'' = Some ''{"a":1} and {oops}''
   \<and> minimal_span ''{"a":1} and {oops}'' = Some ''{"a":1}''
   \<and> json_loads ''{"a":1}'' = Inr (JObject [(''a'', JNumber ''1'')])
   \<and> extract_as_specified json_loads ''{"a":1} and {oops}'' = Inr (JObject [(''a'', JNumber ''1'')])
   \<and> extract_json json_loads ''{"a":1} and {oops}'' = Inr (JObject [])\<close>
  by code_simp

lemma generate_text_stub:
  "generate_text (stub_backend t) self prompt temp w =
     (Inr (strip t),
      (fst w @ [\<lparr>req_model = model_name self, req_prompt = prompt,
                 req_temperature = (case temp of None \<Rightarrow> temperature self | Some x \<Rightarrow> x)\<rparr>],
       snd w))"
  by (simp add: generate_text_def stub_backend_def reply_backend_def first_text_def Let_def)


lemma takeWhile_replicate_append:
  "P c \<Longrightarrow> takeWhile P (replicate n c @ xs) = replicate n c @ takeWhile P xs"
  by (induction n) simp_all

lemma dropWhile_replicate_append:
  "P c \<Longrightarrow> dropWhile P (replicate n c @ xs) = dropWhile P xs"
  by (induction n) simp_all

lemma scan_number_long:
  assumes "4300 \<le> n" and "\<not> is_digit x" and "x \<noteq> CHR ''.''" and "x \<noteq> CHR ''e''" and "x \<noteq> CHR ''E''"
  shows "scan_number (CHR ''1'' # replicate n (CHR ''1'') @ x # xs) = Some (Inl ValueError)"
proof -
  have d: "is_digit (CHR ''1'')" by (simp add: is_digit_def py_ord_def)
  have i: "scan_int (CHR ''1'' # replicate n (CHR ''1'') @ x # xs)
             = Some (CHR ''1'' # replicate n (CHR ''1''), x # xs)"
    using d assms(2) by (simp add: scan_int_def takeWhile_replicate_append dropWhile_replicate_append)
  have f: "scan_frac (x # xs) = ([], x # xs)"
    using assms by (simp add: scan_frac_def split: list.splits)
  have e: "scan_exp (x # xs) = ([], x # xs)"
    using assms by (simp add: scan_exp_def)
  show ?thesis using assms(1) d by (simp add: scan_number_def i f e)
qed

lemma scan_once_long:
  assumes "4300 \<le> n" and "\<not> is_digit x" and "x \<noteq> CHR ''.''" and "x \<noteq> CHR ''e''" and "x \<noteq> CHR ''E''"
  shows "scan_once (CHR ''1'' # replicate n (CHR ''1'') @ x # xs) = Inl ValueError"
  using scan_number_long[OF assms, of xs]
  by (simp add: scan_atom_def scan_word_def then_do_def)

lemma replicate_5000: "replicate 5000 c = c # replicate 4999 c"
  by (simp flip: replicate_Suc)

lemma json_loads_long_number: "json_loads long_number = Inl ValueError"
proof -
  have s: "skip_ws long_number = CHR ''1'' # replicate 4999 (CHR ''1'') @ CHR ''x'' # []"
    by (simp add: long_number_def replicate_5000 skip_ws_def is_json_ws_def)
  have "scan_once (CHR ''1'' # replicate 4999 (CHR ''1'') @ CHR ''x'' # []) = Inl ValueError"
    by (rule scan_once_long) (simp_all add: is_digit_def py_ord_def)
  then show ?thesis unfolding json_loads_def s by simp
qed

lemma find_span_long_number: "find_span long_number = None"
  by (simp add: find_span_eq first_to_last_brace_None long_number_def dropWhile_replicate_append)

lemma strip_long_number: "strip long_number = long_number"
  by (simp add: strip_def long_number_def replicate_5000 isspace_char_def py_ord_def)

lemma json_loads_long_number_span: "json_loads long_number_span = Inl JSONDecodeError"
  by (simp add: json_loads_def long_number_span_def skip_ws_def is_json_ws_def scan_atom_def
      scan_word_def scan_number_def scan_int_def is_digit_def py_ord_def)

lemma find_span_long_number_span:
  \<open>find_span long_number_span = Some (''{"n": '' @ replicate 5000 (CHR ''1'') @ ''}'')\<close>
  by (simp add: find_span_eq first_to_last_brace_def long_number_span_def)

lemma json_loads_span_of_long_number_span:
  \<open>json_loads (''{"n": '' @ replicate 5000 (CHR ''1'') @ ''}'') = Inl ValueError\<close>
proof -
  have n: "scan_once (CHR ''1'' # replicate 4999 (CHR ''1'') @ CHR ''}'' # []) = Inl ValueError"
    by (rule scan_once_long) (simp_all add: is_digit_def py_ord_def)
  have k: \<open>scanstring (''n": '' @ replicate 5000 (CHR ''1'') @ ''}'')
             = Inr (''n'', '': '' @ replicate 5000 (CHR ''1'') @ ''}'')\<close>
    by (simp add: then_do_def py_ord_def)
  have o: \<open>JSONObject [] (CHR 0x22 # ''n": '' @ replicate 5000 (CHR ''1'') @ ''}'') = Inl ValueError\<close>
    unfolding JSONObject_unguarded k using n
    by (simp add: skip_ws_def is_json_ws_def replicate_5000 del: scan_once.simps)
  have \<open>scan_once (skip_ws (''{"n": '' @ replicate 5000 (CHR ''1'') @ ''}'')) = Inl ValueError\<close>
    using o by (simp add: skip_ws_def is_json_ws_def del: JSONObject.simps)
  then show ?thesis unfolding json_loads_def by simp
qed

lemma strip_long_number_span: "strip long_number_span = long_number_span"
  by (simp add: strip_def long_number_span_def isspace_char_def py_ord_def)

text \<open>
  C2, amended. Take a raw text of the generation that does not parse. If the decoder
  fails on it with \<^verbatim>\<open>JSONDecodeError\<close>, and fails in the same way on the span the
  code finds in it (if there is one), \<^verbatim>\<open>generate_json\<close> returns the empty mapping: a
  value, not an exception. Only that exception is caught: when the decoder fails in
  another way on the raw text, or on the span after the raw text was rejected,
  \<^verbatim>\<open>generate_json\<close> raises what the decoder raised. \<^verbatim>\<open>json.loads\<close> does fail in
  other ways: with \<^verbatim>\<open>ValueError\<close> on an integer of more than 4300 digits, and with
  \<^verbatim>\<open>RecursionError\<close> on a text nested too deep.
\<close>

theorem generate_json_empty_on_failure:
  assumes "generate_text backend self prompt temp w = (Inr raw, w')"
    and "loads raw = Inl e"
  shows "(e = JSONDecodeError \<and> (\<forall>m. find_span raw = Some m \<longrightarrow> loads m = Inl JSONDecodeError)
            \<longrightarrow> generate_json loads backend self prompt temp w = (Inr (JObject []), w'))
       \<and> (e \<noteq> JSONDecodeError \<longrightarrow> generate_json loads backend self prompt temp w = (Inl e, w'))
       \<and> (\<forall>m e'. e = JSONDecodeError \<and> find_span raw = Some m \<and> loads m = Inl e'
                    \<and> e' \<noteq> JSONDecodeError
            \<longrightarrow> generate_json loads backend self prompt temp w = (Inl e', w'))"
  using assms by (auto simp: generate_json_def extract_json_def split: option.splits)

theorem generate_json_empty_on_failure_witness:
  \<open>generate_text (stub_backend ''Sorry, no data {yet}.'') default_client ''p'' None ([], ())
     = (Inr ''Sorry, no data {yet}.'',
        ([\<lparr>req_model = ''models/gemini-2.0-flash'', req_prompt = ''p'', req_temperature = 0.2\<rparr>], ()))
   \<and> json_loads ''Sorry, no data {yet}.'' = Inl JSONDecodeError
   \<and> find_span ''Sorry, no data {yet}.'' = Some ''{yet}''
   \<and> json_loads ''{yet}'' = Inl JSONDecodeError
   \<and> generate_json json_loads (stub_backend ''Sorry, no data {yet}.'') default_client ''p'' None ([], ())
     = (Inr (JObject []),
        ([\<lparr>req_model = ''models/gemini-2.0-flash'', req_prompt = ''p'', req_temperature = 0.2\<rparr>], ()))
   \<and> generate_text (stub_backend long_number) default_client ''p'' None ([], ())
     = (Inr long_number,
        ([\<lparr>req_model = ''models/gemini-2.0-flash'', req_prompt = ''p'', req_temperature = 0.2\<rparr>], ()))
   \<and> json_loads long_number = Inl ValueError
   \<and> generate_json json_loads (stub_backend long_number) default_client ''p'' None ([], ())
     = (Inl ValueError,
        ([\<lparr>req_model = ''models/gemini-2.0-flash'', req_prompt = ''p'', req_temperature = 0.2\<rparr>], ()))
   \<and> generate_text (stub_backend long_number_span) default_client ''p'' None ([], ())
     = (Inr long_number_span,
        ([\<lparr>req_model = ''models/gemini-2.0-flash'', req_prompt = ''p'', req_temperature = 0.2\<rparr>], ()))
   \<and> json_loads long_number_span = Inl JSONDecodeError
   \<and> find_span long_number_span = Some (''{"n": '' @ replicate 5000 (CHR ''1'') @ ''}'')
   \<and> json_loads (''{"n": '' @ replicate 5000 (CHR ''1'') @ ''}'') = Inl ValueError
   \<and> generate_json json_loads (stub_backend long_number_span) default_client ''p'' None ([], ())
     = (Inl ValueError,
        ([\<lparr>req_model = ''models/gemini-2.0-flash'', req_prompt = ''p'', req_temperature = 0.2\<rparr>], ()))\<close>
proof -
  let ?w = "([\<lparr>req_model = ''models/gemini-2.0-flash'', req_prompt = ''p'', req_temperature = 0.2\<rparr>], ())"
  have s: \<open>strip ''Sorry, no data {yet}.'' = ''Sorry, no data {yet}.''\<close> by code_simp
  have g: \<open>generate_text (stub_backend ''Sorry, no data {yet}.'') default_client ''p'' None ([], ())
     = (Inr ''Sorry, no data {yet}.'', ?w)\<close>
    by (simp add: generate_text_stub s default_client_def)
  have a: \<open>json_loads ''Sorry, no data {yet}.'' = Inl JSONDecodeError\<close> by code_simp
  have b: \<open>find_span ''Sorry, no data {yet}.'' = Some ''{yet}''\<close> by code_simp
  have c: \<open>json_loads ''{yet}'' = Inl JSONDecodeError\<close> by code_simp
  have r1: \<open>generate_json json_loads (stub_backend ''Sorry, no data {yet}.'') default_client ''p'' None ([], ())
     = (Inr (JObject []), ?w)\<close>
    using generate_json_empty_on_failure[where loads = json_loads, OF g a] b c by simp
  have g2: "generate_text (stub_backend long_number) default_client ''p'' None ([], ())
     = (Inr long_number, ?w)"
    by (simp add: generate_text_stub strip_long_number default_client_def)
  have r2: "generate_json json_loads (stub_backend long_number) default_client ''p'' None ([], ())
     = (Inl ValueError, ?w)"
    using generate_json_empty_on_failure[where loads = json_loads, OF g2 json_loads_long_number] by simp
  have g3: "generate_text (stub_backend long_number_span) default_client ''p'' None ([], ())
     = (Inr long_number_span, ?w)"
    by (simp add: generate_text_stub strip_long_number_span default_client_def)
  have r3: "generate_json json_loads (stub_backend long_number_span) default_client ''p'' None ([], ())
     = (Inl ValueError, ?w)"
    using generate_json_empty_on_failure[where loads = json_loads, OF g3 json_loads_long_number_span]
      find_span_long_number_span json_loads_span_of_long_number_span by simp
  from g a b c r1 g2 json_loads_long_number r2 g3 json_loads_long_number_span
    find_span_long_number_span json_loads_span_of_long_number_span r3
  show ?thesis by (intro conjI)
qed

text \<open>
  C2 as stated fails. The text of five thousand digits and a letter holds no JSON: it
  does not parse as a whole, and there is no brace in it. The decoder fails on it with
  \<^verbatim>\<open>ValueError\<close>, which is not caught, so \<^verbatim>\<open>generate_json\<close> raises it instead of
  returning the empty mapping.
\<close>

theorem generate_json_raises_counterexample:
  "json_loads long_number = Inl ValueError
   \<and> find_span long_number = None
   \<and> extract_json json_loads long_number = Inl ValueError
   \<and> generate_json json_loads (stub_backend long_number) default_client ''p'' None ([], ())
     = (Inl ValueError,
        ([\<lparr>req_model = ''models/gemini-2.0-flash'', req_prompt = ''p'', req_temperature = 0.2\<rparr>], ()))"
  by (simp add: json_loads_long_number find_span_long_number extract_json_def generate_json_def
      generate_text_stub strip_long_number default_client_def)

text \<open>
  C10. When the whole raw text parses, \<^verbatim>\<open>generate_json\<close> returns the parsed value
  as it is, whatever its kind, for every decoder: no span is searched for, and the
  empty mapping is not put in its place.
\<close>

theorem generate_json_whole_parse:
  assumes "generate_text backend self prompt temp w = (Inr raw, w')"
    and "loads raw = Inr v"
  shows "generate_json loads backend self prompt temp w = (Inr v, w')"
  using assms by (simp add: generate_json_def extract_json_def)

theorem generate_json_whole_parse_witness:
  \<open>generate_text (stub_backend ''[1, 2]'') default_client ''p'' None ([], ())
     = (Inr ''[1, 2]'',
        ([\<lparr>req_model = ''models/gemini-2.0-flash'', req_prompt = ''p'', req_temperature = 0.2\<rparr>], ()))
   \<and> json_loads ''[1, 2]'' = Inr (JArray [JNumber ''1'', JNumber ''2''])
   \<and> generate_json json_loads (stub_backend ''[1, 2]'') default_client ''p'' None ([], ())
     = (Inr (JArray [JNumber ''1'', JNumber ''2'']),
        ([\<lparr>req_model = ''models/gemini-2.0-flash'', req_prompt = ''p'', req_temperature = 0.2\<rparr>], ()))\<close>
proof -
  have s: \<open>strip ''[1, 2]'' = ''[1, 2]''\<close> by code_simp
  have g: \<open>generate_text (stub_backend ''[1, 2]'') default_client ''p'' None ([], ())
     = (Inr ''[1, 2]'',
        ([\<lparr>req_model = ''models/gemini-2.0-flash'', req_prompt = ''p'', req_temperature = 0.2\<rparr>], ()))\<close>
    by (simp add: generate_text_stub s default_client_def)
  have a: \<open>json_loads ''[1, 2]'' = Inr (JArray [JNumber ''1'', JNumber ''2''])\<close> by code_simp
  from generate_json_whole_parse[where loads = json_loads, OF g a] g a
  show ?thesis by simp
qed


subsection \<open>The generation client\<close>

text \<open>
  C9. With a key that is not empty and a model name that is not among the supported
  ones, the construction succeeds and the client carries the default model name,
  \<^verbatim>\<open>models/gemini-2.0-flash\<close>; no error comes of the unsupported name.
\<close>

theorem LLMClient_init_unsupported_model:
  assumes "api_key \<noteq> []" and "name \<notin> set SUPPORTED_MODELS"
  shows "\<exists>client. LLMClient_init api_key (Some name) temp = Inr client
           \<and> model_name client = ''models/gemini-2.0-flash''"
  using assms by (simp add: LLMClient_init_def SUPPORTED_MODELS_def)

theorem LLMClient_init_unsupported_model_witness:
  "''key'' \<noteq> [] \<and> ''models/gemini-1.5-pro'' \<notin> set SUPPORTED_MODELS
   \<and> (\<exists>client. LLMClient_init ''key'' (Some ''models/gemini-1.5-pro'') None = Inr client
           \<and> model_name client = ''models/gemini-2.0-flash'')"
proof -
  have a: "''key'' \<noteq> []" by simp
  have b: "''models/gemini-1.5-pro'' \<notin> set SUPPORTED_MODELS" by (simp add: SUPPORTED_MODELS_def)
  from LLMClient_init_unsupported_model[OF a b, of None] a b show ?thesis by simp
qed

text \<open>
  C5, amended. \<^verbatim>\<open>generate_text\<close> sends an explicit temperature to the backend as
  it is given, whatever its value: nothing clamps it. Without an explicit temperature
  it sends the temperature of the client, which is 0.2 for a client constructed without
  one.
\<close>

theorem generate_text_temperature_unchanged:
  "fst (snd (generate_text backend self prompt (Some t) w))
     = fst w @ [\<lparr>req_model = model_name self, req_prompt = prompt, req_temperature = t\<rparr>]
   \<and> fst (snd (generate_text backend self prompt None w))
     = fst w @ [\<lparr>req_model = model_name self, req_prompt = prompt,
                 req_temperature = temperature self\<rparr>]
   \<and> (LLMClient_init api_key name None = Inl ValueError
      \<or> (\<exists>client. LLMClient_init api_key name None = Inr client \<and> temperature client = 0.2))"
  by (auto simp: generate_text_def LLMClient_init_def Let_def split: prod.splits)

text \<open>
  C5 as stated fails: the explicit temperature 1.5 reaches the backend as 1.5, which is
  outside the interval from 0 to 1.
\<close>

theorem generate_text_temperature_counterexample:
  "fst (snd (generate_text (stub_backend ''ok'') default_client ''p'' (Some 1.5) ([], ())))
     = [\<lparr>req_model = ''models/gemini-2.0-flash'', req_prompt = ''p'', req_temperature = 1.5\<rparr>]
   \<and> \<not> (1.5::real) \<le> 1"
  by (simp add: generate_text_stub default_client_def)

lemma part_texts_none:
  assumes "list_all (\<lambda>p. \<not> part_has_text p) ps"
  shows "part_texts ps = Inr [] \<or> (\<exists>e. part_texts ps = Inl e)"
  using assms
proof (induction ps)
  case Nil
  show ?case by simp
next
  case (Cons p ps)
  then have ih: "part_texts ps = Inr [] \<or> (\<exists>e. part_texts ps = Inl e)" by simp
  from Cons.prems have p: "\<not> part_has_text p" by simp
  show ?case
  proof (cases "getattr_text p")
    case (Inl e)
    then show ?thesis by (simp add: then_do_def)
  next
    case (Inr t)
    show ?thesis
    proof (cases t)
      case None
      with Inr ih show ?thesis by (simp add: then_do_def)
    next
      case (Some s)
      with Inr have "part_text p = Inr (Some s)"
        by (auto simp: getattr_text_def split: sum.splits if_splits)
      with p have "s = []" by (simp add: part_has_text_def)
      with Inr Some ih show ?thesis by (simp add: then_do_def)
    qed
  qed
qed

lemma fragments_none:
  assumes "\<And>c ps. c \<in> set cs \<Longrightarrow> content_parts c = Inr ps \<Longrightarrow> list_all (\<lambda>p. \<not> part_has_text p) ps"
  shows "fragments cs = Inr [] \<or> (\<exists>e. fragments cs = Inl e)"
  using assms
proof (induction cs)
  case Nil
  show ?case by simp
next
  case (Cons c cs)
  have ih: "fragments cs = Inr [] \<or> (\<exists>e. fragments cs = Inl e)"
  proof (rule Cons.IH)
    fix c' ps assume "c' \<in> set cs" "content_parts c' = Inr ps"
    then show "list_all (\<lambda>p. \<not> part_has_text p) ps" using Cons.prems[of c' ps] by simp
  qed
  show ?case
  proof (cases "content_parts c")
    case (Inl e)
    then show ?thesis by (simp add: then_do_def)
  next
    case (Inr ps)
    with Cons.prems[of c ps] have "list_all (\<lambda>p. \<not> part_has_text p) ps" by simp
    then have "part_texts ps = Inr [] \<or> (\<exists>e. part_texts ps = Inl e)" by (rule part_texts_none)
    with Inr ih show ?thesis by (auto simp: then_do_def)
  qed
qed

lemma strip_Nil: "strip [] = []"
  by (simp add: strip_def)

text \<open>
  C7. Take a response whose aggregated text field raises, is \<^verbatim>\<open>None\<close> or is blank,
  and in which no part of any candidate carries a text that is not empty (reading the
  candidates, the parts or a text may also raise). Then \<^verbatim>\<open>_first_text\<close> gives the
  empty string, and so does \<^verbatim>\<open>generate_text\<close> when the backend answers with that
  response: a value, not an exception.
\<close>

theorem generate_text_no_text:
  assumes agg: "\<And>s. response_text r = Inr (Some s) \<Longrightarrow> strip s = []"
    and frag: "\<And>cs c ps. candidates r = Inr cs \<Longrightarrow> c \<in> set cs \<Longrightarrow> content_parts c = Inr ps
                 \<Longrightarrow> list_all (\<lambda>p. \<not> part_has_text p) ps"
    and call: "backend \<lparr>req_model = model_name self, req_prompt = prompt,
                 req_temperature = (case temp of None \<Rightarrow> temperature self | Some t \<Rightarrow> t)\<rparr> (snd w)
               = (Inr r, b)"
  shows "first_text r = [] \<and> fst (generate_text backend self prompt temp w) = Inr []"
proof -
  have ft: "first_text r = []"
  proof (cases "response_text r")
    case (Inr t)
    with agg show ?thesis by (cases t) (simp_all add: first_text_def strip_Nil)
  next
    case (Inl e)
    show ?thesis
    proof (cases "candidates r")
      case l: (Inl e')
      with Inl show ?thesis by (simp add: first_text_def then_do_def)
    next
      case (Inr cs)
      with frag have "fragments cs = Inr [] \<or> (\<exists>e. fragments cs = Inl e)"
        by (intro fragments_none) blast
      with Inl Inr show ?thesis by (auto simp: first_text_def then_do_def strip_Nil)
    qed
  qed
  with call show ?thesis by (simp add: generate_text_def Let_def)
qed

theorem generate_text_no_text_witness:
  "response_text silent_response = Inl ValueError
   \<and> candidates silent_response
     = Inr [Candidate (Inr [Part (Inr None), Part (Inl AttributeError), Part (Inr (Some []))]),
            Candidate (Inr [])]
   \<and> list_all (\<lambda>p. \<not> part_has_text p) [Part (Inr None), Part (Inl AttributeError), Part (Inr (Some []))]
   \<and> first_text silent_response = []
   \<and> fst (generate_text (reply_backend silent_response) default_client ''p'' None ([], ())) = Inr []"
proof -
  have a: "\<And>s. response_text silent_response = Inr (Some s) \<Longrightarrow> strip s = []"
    by (simp add: silent_response_def)
  have b: "\<And>cs c ps. candidates silent_response = Inr cs \<Longrightarrow> c \<in> set cs \<Longrightarrow> content_parts c = Inr ps
                 \<Longrightarrow> list_all (\<lambda>p. \<not> part_has_text p) ps"
    by (auto simp: silent_response_def part_has_text_def)
  have c: "reply_backend silent_response \<lparr>req_model = model_name default_client, req_prompt = ''p'',
                 req_temperature = (case None of None \<Rightarrow> temperature default_client | Some t \<Rightarrow> t)\<rparr>
             (snd ([], ())) = (Inr silent_response, ())"
    by (simp add: reply_backend_def)
  from generate_text_no_text[of silent_response "reply_backend silent_response" default_client "''p''" None
      "([], ())" "()", OF a b c]
  show ?thesis by (simp add: silent_response_def part_has_text_def)
qed

subsection \<open>The analysis pipeline\<close>

lemma find_span_Nil: "find_span [] = None"
  by (simp add: find_span_def)

lemma generate_json_empty_text:
  assumes empty: "\<forall>req b. \<exists>r b'. backend req b = (Inr r, b') \<and> first_text r = []"
    and dec: "loads [] = Inl JSONDecodeError"
  shows "\<exists>b'. generate_json loads backend self prompt (Some t) w
           = (Inr (JObject []),
              (fst w @ [\<lparr>req_model = model_name self, req_prompt = prompt, req_temperature = t\<rparr>], b'))"
proof -
  from empty
  obtain r b' where "backend \<lparr>req_model = model_name self, req_prompt = prompt, req_temperature = t\<rparr> (snd w)
      = (Inr r, b')" and "first_text r = []" by blast
  with dec show ?thesis
    by (simp add: generate_json_def generate_text_def extract_json_def find_span_Nil Let_def)
qed

text \<open>
  C6. With a backend whose every response yields the empty text (and a decoder that
  rejects the empty text, as \<^verbatim>\<open>json.loads\<close> does), the three stages all run: each
  returns the empty mapping, exactly three requests are sent, with the temperatures 0.1,
  0.1 and 0.2, and the test of the three results takes the branch that reports
  insufficient data instead of presenting results.
\<close>

theorem pipeline_empty_backend:
  assumes empty: "\<forall>req b. \<exists>r b'. backend req b = (Inr r, b') \<and> first_text r = []"
    and dec: "loads [] = Inl JSONDecodeError"
  shows "\<exists>w1 w2 w3.
           analyze_job loads backend llm job_desc w = (Inr (JObject []), w1)
         \<and> analyze_resume loads backend llm resume_text w1 = (Inr (JObject []), w2)
         \<and> analyze_match loads dumps backend llm (JObject []) (JObject []) w2 = (Inr (JObject []), w3)
         \<and> main_analysis loads dumps backend llm job_desc resume_text w = (Inr InsufficientData, w3)
         \<and> fst w3 = fst w @
             [\<lparr>req_model = model_name llm, req_prompt = analyze_job_prompt job_desc,
               req_temperature = 0.1\<rparr>,
              \<lparr>req_model = model_name llm, req_prompt = analyze_resume_prompt resume_text,
               req_temperature = 0.1\<rparr>,
              \<lparr>req_model = model_name llm,
               req_prompt = analyze_match_prompt dumps (JObject []) (JObject []),
               req_temperature = 0.2\<rparr>]"
proof -
  let ?r1 = "\<lparr>req_model = model_name llm, req_prompt = analyze_job_prompt job_desc,
               req_temperature = 0.1\<rparr>"
  let ?r2 = "\<lparr>req_model = model_name llm, req_prompt = analyze_resume_prompt resume_text,
               req_temperature = 0.1\<rparr>"
  let ?r3 = "\<lparr>req_model = model_name llm,
               req_prompt = analyze_match_prompt dumps (JObject []) (JObject []),
               req_temperature = 0.2\<rparr>"
  from generate_json_empty_text[of backend loads llm "analyze_job_prompt job_desc" "0.1" w, OF empty dec]
  obtain b1 where j: "analyze_job loads backend llm job_desc w = (Inr (JObject []), (fst w @ [?r1], b1))"
    by (auto simp: analyze_job_def)
  from generate_json_empty_text[of backend loads llm "analyze_resume_prompt resume_text" "0.1"
      "(fst w @ [?r1], b1)", OF empty dec]
  obtain b2 where r: "analyze_resume loads backend llm resume_text (fst w @ [?r1], b1)
      = (Inr (JObject []), (fst w @ [?r1, ?r2], b2))"
    by (auto simp: analyze_resume_def)
  from generate_json_empty_text[of backend loads llm
      "analyze_match_prompt dumps (JObject []) (JObject [])" "0.2" "(fst w @ [?r1, ?r2], b2)", OF empty dec]
  obtain b3 where m: "analyze_match loads dumps backend llm (JObject []) (JObject []) (fst w @ [?r1, ?r2], b2)
      = (Inr (JObject []), (fst w @ [?r1, ?r2, ?r3], b3))"
    by (auto simp: analyze_match_def)
  from j r m have "main_analysis loads dumps backend llm job_desc resume_text w
      = (Inr InsufficientData, (fst w @ [?r1, ?r2, ?r3], b3))"
    by (simp add: main_analysis_def)
  with j r m show ?thesis by auto
qed

theorem pipeline_empty_backend_witness:
  "(\<forall>req b. \<exists>r b'. stub_backend [] req b = (Inr r, b') \<and> first_text r = [])
   \<and> json_loads [] = Inl JSONDecodeError
   \<and> (\<exists>w1 w2 w3.
         analyze_job json_loads (stub_backend []) default_client ''Engineer'' ([], ()) = (Inr (JObject []), w1)
       \<and> analyze_resume json_loads (stub_backend []) default_client ''Resume'' w1 = (Inr (JObject []), w2)
       \<and> analyze_match json_loads (\<lambda>v. ''{}'') (stub_backend []) default_client (JObject []) (JObject []) w2
           = (Inr (JObject []), w3)
       \<and> main_analysis json_loads (\<lambda>v. ''{}'') (stub_backend []) default_client ''Engineer'' ''Resume'' ([], ())
           = (Inr InsufficientData, w3)
       \<and> length (fst w3) = 3)"
proof -
  have a: "\<forall>req b. \<exists>r b'. stub_backend [] req b = (Inr r, b') \<and> first_text r = []"
    by (simp add: stub_backend_def reply_backend_def first_text_def strip_def)
  have b: "json_loads [] = Inl JSONDecodeError"
    by (simp add: json_loads_def skip_ws_def)
  from pipeline_empty_backend[of "stub_backend []" json_loads default_client "''Engineer''" "([], ())"
      "''Resume''" "\<lambda>v. ''{}''", OF a b]
  obtain w1 w2 w3 where
    "analyze_job json_loads (stub_backend []) default_client ''Engineer'' ([], ()) = (Inr (JObject []), w1)"
    "analyze_resume json_loads (stub_backend []) default_client ''Resume'' w1 = (Inr (JObject []), w2)"
    "analyze_match json_loads (\<lambda>v. ''{}'') (stub_backend []) default_client (JObject []) (JObject []) w2
           = (Inr (JObject []), w3)"
    "main_analysis json_loads (\<lambda>v. ''{}'') (stub_backend []) default_client ''Engineer'' ''Resume'' ([], ())
           = (Inr InsufficientData, w3)"
    "length (fst w3) = 3"
    by auto
  with a b show ?thesis by blast
qed


subsection \<open>The resume export\<close>

text \<open>
  C8. The two exports diverge: the line \<^verbatim>\<open>Summary\<close> is a section header for
  \<^verbatim>\<open>generate_updated_resume\<close>, whose keywords include SUMMARY, and ordinary content
  for \<^verbatim>\<open>generate_updated_resume1\<close>, whose keywords do not. Both make the same two
  paragraphs, which the renderer accepts or refuses for both alike.
\<close>

theorem keyword_sets_diverge:
  "is_section ''Summary'' \<and> \<not> is_section1 ''Summary''
   \<and> generate_updated_resume accepts str_of ''Summary'' JNull
       = (if accepts ''Updated Resume'' \<and> accepts ''Summary''
          then Inr [Paragraph ''Updated Resume'' header_style, Spacer 1 12,
                    Spacer 1 12, Paragraph ''Summary'' section_header_style]
          else Inl ValueError)
   \<and> generate_updated_resume1 accepts str_of ''Summary'' JNull
       = (if accepts ''Updated Resume'' \<and> accepts ''Summary''
          then Inr [Paragraph ''Updated Resume'' Heading1, Spacer 1 12,
                    Paragraph ''Summary'' Normal, Spacer 1 6]
          else Inl ValueError)"
proof -
  have a: "is_section ''Summary''" by code_simp
  have b: "\<not> is_section1 ''Summary''" by code_simp
  have c: "resume_parts ''Summary'' = [''Summary'']" by code_simp
  have d: "resume_parts1 ''Summary'' = [''Summary'']" by code_simp
  show ?thesis
    by (simp add: a b c d generate_updated_resume_def generate_updated_resume1_def
        resume_content_def append_suggestions_def new_Paragraph_def py_get_def then_do_def)
qed


lemma flowable_ok_all:
  "list_all (flowable_ok accepts) fs = (\<forall>txt st. Paragraph txt st \<in> set fs \<longrightarrow> accepts txt)"
  by (induction fs) (auto simp: flowable_ok_def split: flowable.splits)








































lemma get_text_field:
  assumes "text_field_ok kvs k"
  shows "\<exists>v. py_get (JObject kvs) k (JString []) = Inr v
           \<and> truthy v = (field (JObject kvs) k \<noteq> [])
           \<and> (truthy v \<longrightarrow> py_str str_of v = field (JObject kvs) k)"
  using assms
  by (auto simp: py_get_def text_field_ok_def field_def text_of_def py_str_def
      split: option.splits json.splits)

lemma paragraph_if_field:
  assumes "truthy v = (x \<noteq> [])" and "truthy v \<longrightarrow> py_str str_of v = x"
  shows "paragraph_if accepts (truthy v) (label @ py_str str_of v) recommendation_style
           = built accepts (optional_line label x)"
  using assms
  by (cases "truthy v")
     (simp_all add: paragraph_if_def built_def optional_line_def new_Paragraph_def then_do_def
        flowable_ok_def)

lemma paragraph_if_text:
  "paragraph_if accepts (x \<noteq> []) (label @ x) recommendation_style = built accepts (optional_line label x)"
  by (simp add: paragraph_if_def built_def optional_line_def new_Paragraph_def then_do_def
      flowable_ok_def)

lemma get_section:
  "\<exists>v. py_get (JObject kvs) ''section'' (JString []) = Inr v
        \<and> py_str str_of v = section_of str_of (JObject kvs)"
  by (auto simp: py_get_def section_of_def py_str_def split: option.splits)

lemma strings_of_texts:
  "list_all is_JString ks \<Longrightarrow> strings_of ks = Inr (map text_of ks)"
  by (induction ks rule: strings_of.induct)
     (simp_all add: is_JString_def text_of_def then_do_def)

lemma get_keywords:
  assumes "keywords_ok kvs"
  shows "\<exists>kw. py_get (JObject kvs) ''keywords_to_add'' (JArray []) = Inr kw
           \<and> join_value '', '' (if truthy kw then kw else JArray [])
               = Inr (join '', '' (keywords_of (JObject kvs)))"
proof (cases "map_of kvs ''keywords_to_add''")
  case None
  then show ?thesis
    by (simp add: py_get_def then_do_def join_value_def py_iter_def keywords_of_def)
next
  case (Some v)
  with assms consider "v = JNull" | ks where "v = JArray ks" "list_all is_JString ks"
    by (auto simp: keywords_ok_def split: json.splits)
  then show ?thesis
  proof cases
    case 1
    with Some show ?thesis
      by (simp add: py_get_def then_do_def join_value_def py_iter_def keywords_of_def)
  next
    case 2
    with Some strings_of_texts[OF 2(2)] show ?thesis
      by (cases "ks = []")
         (simp_all add: py_get_def then_do_def join_value_def py_iter_def keywords_of_def)
  qed
qed

lemma suggestion_lines_wf:
  assumes "wf_suggestion s"
  shows "suggestion_lines accepts str_of s =
     built accepts
       (Paragraph (bullet_mark @ '' Section: '' @ section_of str_of s) recommendation_style
        # optional_line ''  Current: '' (field s ''current_content'')
        @ optional_line ''  Suggestion: '' (field s ''suggested_change'')
        @ optional_line ''  Keywords to Add: '' (join '', '' (keywords_of s))
        @ optional_line ''  Formatting: '' (field s ''formatting_suggestion'')
        @ optional_line ''  Reason: '' (field s ''reason'')
        @ [Spacer 1 6])"
proof -
  from assms obtain kvs where s: "s = JObject kvs"
    and f: "text_field_ok kvs ''current_content''"
      "text_field_ok kvs ''suggested_change''" "text_field_ok kvs ''formatting_suggestion''"
      "text_field_ok kvs ''reason''"
    and k: "keywords_ok kvs"
    by (auto simp: wf_suggestion_def split: json.splits)
  obtain v0 where v0: "py_get (JObject kvs) ''section'' (JString []) = Inr v0"
    "py_str str_of v0 = section_of str_of (JObject kvs)"
    using get_section[of kvs str_of] by blast
  obtain v1 where v1: "py_get (JObject kvs) ''current_content'' (JString []) = Inr v1"
    and p1: "paragraph_if accepts (truthy v1) (''  Current: '' @ py_str str_of v1) recommendation_style
           = built accepts (optional_line ''  Current: '' (field (JObject kvs) ''current_content''))"
    using get_text_field[OF f(1), of str_of] paragraph_if_field by blast
  obtain v2 where v2: "py_get (JObject kvs) ''suggested_change'' (JString []) = Inr v2"
    and p2: "paragraph_if accepts (truthy v2) (''  Suggestion: '' @ py_str str_of v2) recommendation_style
           = built accepts (optional_line ''  Suggestion: '' (field (JObject kvs) ''suggested_change''))"
    using get_text_field[OF f(2), of str_of] paragraph_if_field by blast
  obtain kw where kw: "py_get (JObject kvs) ''keywords_to_add'' (JArray []) = Inr kw"
    "join_value '', '' (if truthy kw then kw else JArray []) = Inr (join '', '' (keywords_of (JObject kvs)))"
    using get_keywords[OF k] by blast
  obtain v4 where v4: "py_get (JObject kvs) ''formatting_suggestion'' (JString []) = Inr v4"
    and p4: "paragraph_if accepts (truthy v4) (''  Formatting: '' @ py_str str_of v4) recommendation_style
           = built accepts (optional_line ''  Formatting: '' (field (JObject kvs) ''formatting_suggestion''))"
    using get_text_field[OF f(3), of str_of] paragraph_if_field by blast
  obtain v5 where v5: "py_get (JObject kvs) ''reason'' (JString []) = Inr v5"
    and p5: "paragraph_if accepts (truthy v5) (''  Reason: '' @ py_str str_of v5) recommendation_style
           = built accepts (optional_line ''  Reason: '' (field (JObject kvs) ''reason''))"
    using get_text_field[OF f(4), of str_of] paragraph_if_field by blast
  have t: "then_do (Inr x) g = g x" for x :: 'a and g :: "'a \<Rightarrow> error + 'b"
    by (simp add: then_do_def)
  show ?thesis
    unfolding s suggestion_lines_def v0 v1 v2 kw v4 v5 t p1 p2 p4 p5 paragraph_if_text
    by (simp add: built_def then_do_def new_Paragraph_def flowable_ok_def)
qed

lemma suggestions_loop_wf:
  assumes "list_all wf_suggestion items"
  shows "suggestions_loop accepts str_of items content =
     then_do (built accepts (concat (map (\<lambda>s.
          Paragraph (bullet_mark @ '' Section: '' @ section_of str_of s) recommendation_style
          # optional_line ''  Current: '' (field s ''current_content'')
          @ optional_line ''  Suggestion: '' (field s ''suggested_change'')
          @ optional_line ''  Keywords to Add: '' (join '', '' (keywords_of s))
          @ optional_line ''  Formatting: '' (field s ''formatting_suggestion'')
          @ optional_line ''  Reason: '' (field s ''reason'')
          @ [Spacer 1 6]) items)))
       (\<lambda>fs. Inr (content @ fs))"
  using assms
proof (induction items arbitrary: content)
  case Nil
  show ?case by (simp add: built_def then_do_def)
next
  case (Cons s ss)
  then have w: "wf_suggestion s" and "list_all wf_suggestion ss" by simp_all
  with Cons.IH have ih: "\<And>content. suggestions_loop accepts str_of ss content =
     then_do (built accepts (concat (map (\<lambda>s.
          Paragraph (bullet_mark @ '' Section: '' @ section_of str_of s) recommendation_style
          # optional_line ''  Current: '' (field s ''current_content'')
          @ optional_line ''  Suggestion: '' (field s ''suggested_change'')
          @ optional_line ''  Keywords to Add: '' (join '', '' (keywords_of s))
          @ optional_line ''  Formatting: '' (field s ''formatting_suggestion'')
          @ optional_line ''  Reason: '' (field s ''reason'')
          @ [Spacer 1 6]) ss)))
       (\<lambda>fs. Inr (content @ fs))" by simp
  show ?case
    unfolding suggestions_loop.simps suggestion_lines_wf[OF w] ih
    by (simp add: built_def then_do_def)
qed

lemma append_suggestions_none:
  "append_suggestions accepts str_of content JNull = Inr content"
  by (simp add: append_suggestions_def py_get_def then_do_def)

lemma append_suggestions_empty:
  assumes "map_of report ''ats_optimization_suggestions'' = None
           \<or> map_of report ''ats_optimization_suggestions'' = Some JNull
           \<or> map_of report ''ats_optimization_suggestions'' = Some (JArray [])"
  shows "append_suggestions accepts str_of content (JObject report) = Inr content"
  using assms by (cases "report = []") (auto simp: append_suggestions_def py_get_def then_do_def)

lemma append_suggestions_items:
  assumes "map_of report ''ats_optimization_suggestions'' = Some (JArray items)"
    and "items \<noteq> []" and "list_all wf_suggestion items"
  shows "append_suggestions accepts str_of content (JObject report) =
     then_do (built accepts
        ([Spacer 1 20, Paragraph ''ATS Optimization Recommendations'' section_header_style, Spacer 1 10]
         @ concat (map (\<lambda>s.
              Paragraph (bullet_mark @ '' Section: '' @ section_of str_of s) recommendation_style
              # optional_line ''  Current: '' (field s ''current_content'')
              @ optional_line ''  Suggestion: '' (field s ''suggested_change'')
              @ optional_line ''  Keywords to Add: '' (join '', '' (keywords_of s))
              @ optional_line ''  Formatting: '' (field s ''formatting_suggestion'')
              @ optional_line ''  Reason: '' (field s ''reason'')
              @ [Spacer 1 6]) items)))
       (\<lambda>fs. Inr (content @ fs))"
proof -
  from assms(1) have ne: "report \<noteq> []" by auto
  have g: "py_get (if truthy (JObject report) then JObject report else JObject [])
             ''ats_optimization_suggestions'' (JArray []) = Inr (JArray items)"
    using assms(1) ne by (simp add: py_get_def)
  show ?thesis
    unfolding append_suggestions_def g
    using assms(2) suggestions_loop_wf[OF assms(3), of accepts str_of]
    by (simp add: then_do_def py_iter_def new_Paragraph_def built_def flowable_ok_def)
qed

text \<open>
  C4, amended. When the renderer refuses a text of the resume itself, the export raises
  and there is no block to speak of. Otherwise, for a match report that is missing, or
  whose suggestions are absent, null or an empty list, the export appends nothing. For
  a match report whose suggestions are a list of suggestions that is not empty (objects
  whose textual fields are strings or null, and whose keywords are null or a list of
  strings), it appends the heading of the block and one entry for every suggestion, in
  the order of the list; the content is there when the renderer accepts every text of
  the block, and the export raises otherwise. An entry always starts with its Section
  line, also when the section is empty or absent; the lines for the current content,
  the suggested change, the keywords, the formatting and the reason are there only when
  their text is not empty; a spacer ends the entry.
\<close>

theorem ats_block_entries:
  "(resume_content accepts resume_text = Inl e
      \<longrightarrow> generate_updated_resume accepts str_of resume_text match_analysis = Inl e)
   \<and> (resume_content accepts resume_text = Inr content \<longrightarrow>
        generate_updated_resume accepts str_of resume_text JNull = Inr content
      \<and> (map_of report ''ats_optimization_suggestions'' = None
           \<or> map_of report ''ats_optimization_suggestions'' = Some JNull
           \<or> map_of report ''ats_optimization_suggestions'' = Some (JArray [])
         \<longrightarrow> generate_updated_resume accepts str_of resume_text (JObject report) = Inr content)
      \<and> (map_of report ''ats_optimization_suggestions'' = Some (JArray items) \<and> items \<noteq> []
           \<and> list_all wf_suggestion items
         \<longrightarrow> (let block =
                    [Spacer 1 20, Paragraph ''ATS Optimization Recommendations'' section_header_style,
                     Spacer 1 10]
                    @ concat (map (\<lambda>s.
                         Paragraph (bullet_mark @ '' Section: '' @ section_of str_of s) recommendation_style
                         # optional_line ''  Current: '' (field s ''current_content'')
                         @ optional_line ''  Suggestion: '' (field s ''suggested_change'')
                         @ optional_line ''  Keywords to Add: '' (join '', '' (keywords_of s))
                         @ optional_line ''  Formatting: '' (field s ''formatting_suggestion'')
                         @ optional_line ''  Reason: '' (field s ''reason'')
                         @ [Spacer 1 6]) items)
               in generate_updated_resume accepts str_of resume_text (JObject report)
                    = (if \<forall>txt st. Paragraph txt st \<in> set block \<longrightarrow> accepts txt
                       then Inr (content @ block) else Inl ValueError))))"
proof (intro conjI impI)
  assume "resume_content accepts resume_text = Inl e"
  then show "generate_updated_resume accepts str_of resume_text match_analysis = Inl e"
    by (simp add: generate_updated_resume_def then_do_def)
next
  assume "resume_content accepts resume_text = Inr content"
  then show "generate_updated_resume accepts str_of resume_text JNull = Inr content"
    by (simp add: generate_updated_resume_def then_do_def append_suggestions_none)
next
  assume "resume_content accepts resume_text = Inr content"
    and "map_of report ''ats_optimization_suggestions'' = None
        \<or> map_of report ''ats_optimization_suggestions'' = Some JNull
        \<or> map_of report ''ats_optimization_suggestions'' = Some (JArray [])"
  then show "generate_updated_resume accepts str_of resume_text (JObject report) = Inr content"
    by (simp add: generate_updated_resume_def then_do_def append_suggestions_empty)
next
  assume r: "resume_content accepts resume_text = Inr content"
    and a: "map_of report ''ats_optimization_suggestions'' = Some (JArray items) \<and> items \<noteq> []
        \<and> list_all wf_suggestion items"
  show "let block =
                 [Spacer 1 20, Paragraph ''ATS Optimization Recommendations'' section_header_style,
                  Spacer 1 10]
                 @ concat (map (\<lambda>s.
                      Paragraph (bullet_mark @ '' Section: '' @ section_of str_of s) recommendation_style
                      # optional_line ''  Current: '' (field s ''current_content'')
                      @ optional_line ''  Suggestion: '' (field s ''suggested_change'')
                      @ optional_line ''  Keywords to Add: '' (join '', '' (keywords_of s))
                      @ optional_line ''  Formatting: '' (field s ''formatting_suggestion'')
                      @ optional_line ''  Reason: '' (field s ''reason'')
                      @ [Spacer 1 6]) items)
            in generate_updated_resume accepts str_of resume_text (JObject report)
                 = (if \<forall>txt st. Paragraph txt st \<in> set block \<longrightarrow> accepts txt
                    then Inr (content @ block) else Inl ValueError)"
    unfolding Let_def flowable_ok_all[symmetric] generate_updated_resume_def r
    using append_suggestions_items[of report items accepts str_of content] a
    by (simp add: then_do_def built_def)
qed

theorem ats_block_entries_witness:
  "resume_content markup_free ''Wrote <b>bold text'' = Inl ValueError
   \<and> generate_updated_resume markup_free (\<lambda>v. []) ''Wrote <b>bold text'' (JObject example_report)
       = Inl ValueError
   \<and> resume_content markup_free [] = Inr [Paragraph ''Updated Resume'' header_style, Spacer 1 12]
   \<and> map_of [(''ats_optimization_suggestions'', JNull)] ''ats_optimization_suggestions'' = Some JNull
   \<and> generate_updated_resume markup_free (\<lambda>v. []) [] (JObject [(''ats_optimization_suggestions'', JNull)])
       = Inr [Paragraph ''Updated Resume'' header_style, Spacer 1 12]
   \<and> map_of example_report ''ats_optimization_suggestions'' = Some (JArray example_suggestions)
   \<and> example_suggestions \<noteq> []
   \<and> list_all wf_suggestion example_suggestions
   \<and> generate_updated_resume markup_free (\<lambda>v. []) [] (JObject example_report)
     = Inr [Paragraph ''Updated Resume'' header_style, Spacer 1 12,
            Spacer 1 20, Paragraph ''ATS Optimization Recommendations'' section_header_style,
            Spacer 1 10,
            Paragraph (bullet_mark @ '' Section: Skills'') recommendation_style,
            Paragraph ''  Reason: Missing keywords'' recommendation_style,
            Spacer 1 6,
            Paragraph (bullet_mark @ '' Section: Experience'') recommendation_style,
            Paragraph ''  Keywords to Add: Docker, CI'' recommendation_style,
            Spacer 1 6,
            Paragraph (bullet_mark @ '' Section: Summary'') recommendation_style,
            Paragraph ''  Formatting: One page'' recommendation_style,
            Spacer 1 6]"
proof -
  have p: "resume_parts ''Wrote <b>bold text'' = [''Wrote <b>bold text'']" by code_simp
  have s: "\<not> is_section ''Wrote <b>bold text''" by code_simp
  have x: "resume_content markup_free ''Wrote <b>bold text'' = Inl ValueError"
    by (simp add: resume_content_def p s new_Paragraph_def then_do_def markup_free_def bullet_mark_def)
  have y: "generate_updated_resume markup_free (\<lambda>v. []) ''Wrote <b>bold text'' (JObject example_report)
       = Inl ValueError"
    using ats_block_entries[where accepts = markup_free and resume_text = "''Wrote <b>bold text''"
        and e = ValueError and str_of = "\<lambda>v. []" and match_analysis = "JObject example_report"] x
    by simp
  have r: "resume_content markup_free [] = Inr [Paragraph ''Updated Resume'' header_style, Spacer 1 12]"
    by (simp add: resume_content_def resume_parts_def splitlines_def new_Paragraph_def then_do_def
        markup_free_def)
  have n: "map_of [(''ats_optimization_suggestions'', JNull)] ''ats_optimization_suggestions'' = Some JNull"
    by simp
  have a: "map_of example_report ''ats_optimization_suggestions'' = Some (JArray example_suggestions)"
    by (simp add: example_report_def)
  have b: "example_suggestions \<noteq> []" by (simp add: example_suggestions_def)
  have c: "list_all wf_suggestion example_suggestions"
    by (simp add: example_suggestions_def wf_suggestion_def text_field_ok_def keywords_ok_def
        is_JString_def)
  have e: "generate_updated_resume markup_free (\<lambda>v. []) []
             (JObject [(''ats_optimization_suggestions'', JNull)])
       = Inr [Paragraph ''Updated Resume'' header_style, Spacer 1 12]"
    using ats_block_entries[where accepts = markup_free and resume_text = "[]"
        and content = "[Paragraph ''Updated Resume'' header_style, Spacer 1 12]"
        and report = "[(''ats_optimization_suggestions'', JNull)]" and str_of = "\<lambda>v. []"] r n
    by simp
  have f: "generate_updated_resume markup_free (\<lambda>v. []) [] (JObject example_report)
     = Inr [Paragraph ''Updated Resume'' header_style, Spacer 1 12,
            Spacer 1 20, Paragraph ''ATS Optimization Recommendations'' section_header_style,
            Spacer 1 10,
            Paragraph (bullet_mark @ '' Section: Skills'') recommendation_style,
            Paragraph ''  Reason: Missing keywords'' recommendation_style,
            Spacer 1 6,
            Paragraph (bullet_mark @ '' Section: Experience'') recommendation_style,
            Paragraph ''  Keywords to Add: Docker, CI'' recommendation_style,
            Spacer 1 6,
            Paragraph (bullet_mark @ '' Section: Summary'') recommendation_style,
            Paragraph ''  Formatting: One page'' recommendation_style,
            Spacer 1 6]"
    using ats_block_entries[where accepts = markup_free and resume_text = "[]"
        and content = "[Paragraph ''Updated Resume'' header_style, Spacer 1 12]"
        and report = example_report and items = example_suggestions
        and str_of = "\<lambda>v. []", unfolded Let_def flowable_ok_all[symmetric]] r a b c
    by (simp add: example_suggestions_def optional_line_def field_def keywords_of_def
        text_of_def section_of_def py_str_def flowable_ok_def markup_free_def bullet_mark_def)
  from x y r n e a b c f show ?thesis by (intro conjI)
qed

text \<open>
  C4 as stated fails for the section: a suggestion with an empty section and a reason
  is rendered with a Section line, so a field that is empty is rendered.
\<close>

theorem ats_block_empty_section_counterexample:
  "generate_updated_resume markup_free (\<lambda>v. []) []
     (JObject [(''ats_optimization_suggestions'',
                JArray [JObject [(''section'', JString []), (''reason'', JString ''Add numbers'')]])])
   = Inr [Paragraph ''Updated Resume'' header_style, Spacer 1 12,
          Spacer 1 20, Paragraph ''ATS Optimization Recommendations'' section_header_style,
          Spacer 1 10,
          Paragraph (bullet_mark @ '' Section: '') recommendation_style,
          Paragraph ''  Reason: Add numbers'' recommendation_style,
          Spacer 1 6]"
proof -
  have c: "resume_parts [] = []" by (simp add: resume_parts_def splitlines_def)
  show ?thesis
    by (simp add: c generate_updated_resume_def resume_content_def append_suggestions_def
        py_get_def then_do_def py_iter_def suggestion_lines_def join_value_def py_str_def
        new_Paragraph_def paragraph_if_def markup_free_def bullet_mark_def)
qed


end
